theory Spec2Isabelle
  imports Main
begin

section \<open>Strings\<close>

text \<open>
  JavaScript strings are modelled as \<^typ>\<open>string\<close> over ASCII text. \<open>String.prototype.trim\<close>
  removes white space and line terminators at both ends; over ASCII these are tab, line
  feed, vertical tab, form feed, carriage return and space.
\<close>

definition NL :: char where
  "NL = CHR 0x0A"

definition is_space :: "char \<Rightarrow> bool" where
  "is_space c = (c \<in> set [CHR 0x09, CHR 0x0A, CHR 0x0B, CHR 0x0C, CHR 0x0D, CHR 0x20])"

definition trim :: "string \<Rightarrow> string" where
  "trim s = rev (dropWhile is_space (rev (dropWhile is_space s)))"

text \<open>\<open>a || b\<close> on an optional string: \<open>undefined\<close> and the empty string are falsy.\<close>

definition or_default :: "string option \<Rightarrow> string \<Rightarrow> string" where
  "or_default a b = (case a of None \<Rightarrow> b | Some s \<Rightarrow> if s = [] then b else s)"

text \<open>\<open>s.split(c)\<close> for a one-character separator: the result is never empty.\<close>

fun split_step :: "char \<Rightarrow> char \<Rightarrow> string list \<Rightarrow> string list" where
  "split_step c x [] = (if x = c then [[], []] else [[x]])"
| "split_step c x (y # ys) = (if x = c then [] # y # ys else (x # y) # ys)"

fun split_on :: "char \<Rightarrow> string \<Rightarrow> string list" where
  "split_on c [] = [[]]"
| "split_on c (x # xs) = split_step c x (split_on c xs)"

text \<open>\<open>xs.join(sep)\<close>.\<close>

fun join_with :: "string \<Rightarrow> string list \<Rightarrow> string" where
  "join_with sep [] = []"
| "join_with sep [x] = x"
| "join_with sep (x # y # ys) = x @ sep @ join_with sep (y # ys)"

text \<open>\<open>xs.slice(-n)\<close>: the last \<open>n\<close> elements, all of them when there are fewer.\<close>

definition slice_last :: "nat \<Rightarrow> 'a list \<Rightarrow> 'a list" where
  "slice_last n xs = drop (length xs - n) xs"

text \<open>\<open>String(n)\<close> for a non-negative integer, and \<open>padStart(w, "0")\<close>.\<close>

definition digit_char :: "nat \<Rightarrow> char" where
  "digit_char k = char_of (48 + k)"

fun dec :: "nat \<Rightarrow> string" where
  "dec n = (if n < 10 then [digit_char n] else dec (n div 10) @ [digit_char (n mod 10)])"

declare dec.simps [simp del]

definition padStart :: "nat \<Rightarrow> string \<Rightarrow> string" where
  "padStart w s = replicate (w - length s) (CHR ''0'') @ s"

section \<open>Paths (Node's posix \<open>path\<close> module)\<close>

text \<open>
  \<open>normalizeString\<close> walks the segments between slashes: empty segments and \<open>.\<close> are
  dropped, \<open>..\<close> removes the segment before it when there is one that is not itself
  \<open>..\<close>, and is kept only where the path may climb above its start.
\<close>

definition normalize_step :: "bool \<Rightarrow> string list \<Rightarrow> string \<Rightarrow> string list" where
  "normalize_step allowAboveRoot res seg =
     (if seg = [] \<or> seg = ''.'' then res
      else if seg = ''..'' then
        (if res \<noteq> [] \<and> last res \<noteq> ''..'' then butlast res
         else if allowAboveRoot then res @ [''..'']
         else res)
      else res @ [seg])"

definition normalizeString :: "bool \<Rightarrow> string \<Rightarrow> string list" where
  "normalizeString allowAboveRoot p =
     foldl (normalize_step allowAboveRoot) [] (split_on (CHR ''/'') p)"

definition isAbsolute :: "string \<Rightarrow> bool" where
  "isAbsolute p = (p \<noteq> [] \<and> hd p = CHR ''/'')"

definition path_normalize :: "string \<Rightarrow> string" where
  "path_normalize p =
     (if p = [] then ''.''
      else
        (let trailingSeparator = (last p = CHR ''/'');
             r = join_with ''/'' (normalizeString (\<not> isAbsolute p) p)
         in if r = [] then (if isAbsolute p then ''/'' else if trailingSeparator then ''./'' else ''.'')
            else (if isAbsolute p then ''/'' else []) @ r @ (if trailingSeparator then ''/'' else [])))"

definition path_join :: "string list \<Rightarrow> string" where
  "path_join args =
     (let parts = filter (\<lambda>a. a \<noteq> []) args
      in if parts = [] then ''.'' else path_normalize (join_with ''/'' parts))"

text \<open>
  The file system names a node by the list of its path segments from the root. A path
  string is resolved against the working directory as \<open>path.resolve\<close> does it, lexically.
  That is where the system finds the path unless a \<open>..\<close> in it follows a name that is not
  an existing directory (or a symbolic link): every path that \<open>path.join\<close> has normalised
  is free of that, and so is a configured directory written without \<open>..\<close>. Other paths
  are outside the model.
\<close>

definition resolve :: "string list \<Rightarrow> string \<Rightarrow> string list" where
  "resolve wd p =
     foldl (normalize_step False) (if isAbsolute p then [] else wd) (split_on (CHR ''/'') p)"

section \<open>The world outside the program\<close>

datatype node = File string | NoAccess | Dir

datatype err = ENOENT | ENOTDIR | EISDIR | EACCES | ExecFailed

datatype signal = SIG0 | SIGINT

datatype child = Spawned nat | SpawnError string

record world =
  files :: "string list \<rightharpoonup> node"
  procs :: "nat set"
  shell_kill :: "signal \<Rightarrow> string \<Rightarrow> bool"
  spawned :: "(string \<times> string list) list"
  cwd :: "string list"
  tmpdir :: string
  homedir :: string
  env_DISPLAY :: "string option"

text \<open>
  \<^item> \<open>files\<close>: the nodes of the file system. \<open>File c\<close> is a regular file with content
    \<open>c\<close>, \<open>NoAccess\<close> a regular file that can be neither read nor written, \<open>Dir\<close> a
    directory. The root always is a directory.
  \<^item> \<open>procs\<close>: the process ids that \<open>kill\<close> can signal now.
  \<^item> \<open>shell_kill\<close>: whether the shell line \<open>kill -<sig> <text>\<close> exits with status
    zero, for a text that is not a decimal number.
  \<^item> \<open>spawned\<close>: the command and arguments of every \<open>spawn\<close> call, latest first.
  \<^item> \<open>cwd\<close>, \<open>tmpdir\<close>, \<open>homedir\<close>, \<open>env_DISPLAY\<close>: \<open>process.cwd()\<close> (resolved),
    \<open>os.tmpdir()\<close>, \<open>os.homedir()\<close> and \<open>process.env.DISPLAY\<close>.
  An operation returns its result, or the exception it throws, together with the world it
  leaves behind.

  Outside the model: symbolic links, the permissions of directories (removing a file and
  creating one in an existing directory always succeed), what the recorder itself writes,
  and other programs acting between two operations. Where a statement depends on what
  happened in between (which processes are still alive), it quantifies over it.
\<close>

type_synonym 'a io = "world \<Rightarrow> (err + 'a) \<times> world"

definition return_io :: "'a \<Rightarrow> 'a io" where
  "return_io x w = (Inr x, w)"

definition throw_io :: "err \<Rightarrow> 'a io" where
  "throw_io e w = (Inl e, w)"

definition bind_io :: "'a io \<Rightarrow> ('a \<Rightarrow> 'b io) \<Rightarrow> 'b io" where
  "bind_io m k w = (case m w of (Inl e, w') \<Rightarrow> (Inl e, w') | (Inr x, w') \<Rightarrow> k x w')"

definition try_io :: "'a io \<Rightarrow> (err \<Rightarrow> 'a io) \<Rightarrow> 'a io" where
  "try_io m h w = (case m w of (Inl e, w') \<Rightarrow> h e w' | (Inr x, w') \<Rightarrow> (Inr x, w'))"

subsection \<open>\<open>fs\<close>\<close>

definition node_at :: "world \<Rightarrow> string \<Rightarrow> node option" where
  "node_at w p = (let r = resolve (cwd w) p in if r = [] then Some Dir else files w r)"

definition is_dir :: "world \<Rightarrow> string list \<Rightarrow> bool" where
  "is_dir w r = (r = [] \<or> files w r = Some Dir)"

definition existsSync :: "string \<Rightarrow> world \<Rightarrow> bool" where
  "existsSync p w = (node_at w p \<noteq> None)"

definition readFileSync :: "string \<Rightarrow> string io" where
  "readFileSync p w =
     (case node_at w p of
        None \<Rightarrow> (Inl ENOENT, w)
      | Some Dir \<Rightarrow> (Inl EISDIR, w)
      | Some NoAccess \<Rightarrow> (Inl EACCES, w)
      | Some (File c) \<Rightarrow> (Inr c, w))"

definition unlinkSync :: "string \<Rightarrow> unit io" where
  "unlinkSync p w =
     (case node_at w p of
        None \<Rightarrow> (Inl ENOENT, w)
      | Some Dir \<Rightarrow> (Inl EISDIR, w)
      | Some _ \<Rightarrow> (Inr (), w\<lparr>files := (files w)(resolve (cwd w) p := None)\<rparr>))"

text \<open>
  Writing: \<open>put_file f p\<close> stores \<open>f old\<close> at \<open>p\<close>, where \<open>old\<close> is the content before
  (empty for a new file). A new file needs its parent directory. \<open>ENOENT\<close> is the error
  for a path that names nothing, also where the system would say \<open>ENOTDIR\<close> because a
  file is in the way.
\<close>

definition put_file :: "(string \<Rightarrow> string) \<Rightarrow> string \<Rightarrow> unit io" where
  "put_file f p w =
     (let r = resolve (cwd w) p in
      case node_at w p of
        Some Dir \<Rightarrow> (Inl EISDIR, w)
      | Some NoAccess \<Rightarrow> (Inl EACCES, w)
      | Some (File c) \<Rightarrow> (Inr (), w\<lparr>files := (files w)(r \<mapsto> File (f c))\<rparr>)
      | None \<Rightarrow>
          if is_dir w (butlast r) then (Inr (), w\<lparr>files := (files w)(r \<mapsto> File (f []))\<rparr>)
          else (Inl ENOENT, w))"

definition writeFileSync :: "string \<Rightarrow> string \<Rightarrow> unit io" where
  "writeFileSync p d = put_file (\<lambda>_. d) p"

definition appendFileSync :: "string \<Rightarrow> string \<Rightarrow> unit io" where
  "appendFileSync p d = put_file (\<lambda>c. c @ d) p"

text \<open>\<open>openSync(p, "w")\<close> creates or truncates, \<open>openSync(p, "a")\<close> creates or keeps.\<close>

definition openSync_w :: "string \<Rightarrow> unit io" where
  "openSync_w p = put_file (\<lambda>_. []) p"

definition openSync_a :: "string \<Rightarrow> unit io" where
  "openSync_a p = put_file (\<lambda>c. c) p"

text \<open>
  \<open>mkdirSync(p, {recursive: true})\<close> creates every missing directory on the way down and
  fails at a component that exists and is not a directory.
\<close>

fun mkdirs :: "string list \<Rightarrow> string list \<Rightarrow> unit io" where
  "mkdirs pre [] w = (Inr (), w)"
| "mkdirs pre (s # ss) w =
     (case files w (pre @ [s]) of
        None \<Rightarrow> mkdirs (pre @ [s]) ss (w\<lparr>files := (files w)(pre @ [s] \<mapsto> Dir)\<rparr>)
      | Some Dir \<Rightarrow> mkdirs (pre @ [s]) ss w
      | Some _ \<Rightarrow> (Inl ENOTDIR, w))"

definition mkdirSync_recursive :: "string \<Rightarrow> unit io" where
  "mkdirSync_recursive p w = mkdirs [] (resolve (cwd w) p) w"

subsection \<open>\<open>child_process\<close>\<close>

text \<open>
  The source pastes the trimmed text of the marker into a shell line,
  \<open>execSync(`kill -0 ${pid}`)\<close> and \<open>execSync(`kill -INT ${pid}`)\<close>, and \<open>execSync\<close> throws
  when the line exits with a status other than zero. For a text of decimal digits the line
  signals that process: it succeeds exactly when the process is in the table. Any other
  text (\<open>-1\<close>, \<open>4242; true\<close>, \<open>$PPID\<close>, the empty text) is the shell's to read, and
  the exit status of the line is an input of the model, \<open>shell_kill\<close>; what such a line
  does besides is outside the model. The id 0 names the process group of the caller: the
  table holds it when that group can be signalled. Delivering a signal does not change the
  table: a process leaves it by its own exit.
\<close>

definition is_digit :: "char \<Rightarrow> bool" where
  "is_digit c = (48 \<le> (of_char c :: nat) \<and> (of_char c :: nat) \<le> 57)"

definition digits_value :: "string \<Rightarrow> nat" where
  "digits_value s = foldl (\<lambda>a c. 10 * a + ((of_char c :: nat) - 48)) 0 s"

definition parse_pid :: "string \<Rightarrow> nat option" where
  "parse_pid s = (if s \<noteq> [] \<and> list_all is_digit s then Some (digits_value s) else None)"

definition kill_succeeds :: "world \<Rightarrow> signal \<Rightarrow> string \<Rightarrow> bool" where
  "kill_succeeds w sg txt =
     (case parse_pid txt of Some p \<Rightarrow> p \<in> procs w | None \<Rightarrow> shell_kill w sg txt)"

definition execSync_kill :: "signal \<Rightarrow> string \<Rightarrow> unit io" where
  "execSync_kill sg txt w =
     (if kill_succeeds w sg txt then (Inr (), w) else (Inl ExecFailed, w))"

definition execSync_sleep :: "unit io" where
  "execSync_sleep w = (Inr (), w)"

text \<open>
  \<open>spawn\<close> does not throw when the executable cannot be started (not found, not
  executable, no process slot left): the child then has no pid and its \<open>error\<close> event
  fires on a later turn of the event loop. The outcome of the launch is an input of the
  model. Errors for which \<open>spawn\<close> throws at once (invalid options, out of memory) are
  outside the model.
\<close>

definition spawn :: "child \<Rightarrow> string \<Rightarrow> string list \<Rightarrow> world \<Rightarrow> child \<times> world" where
  "spawn outcome cmd args w =
     (outcome,
      w\<lparr>spawned := (cmd, args) # spawned w,
        procs := (case outcome of Spawned p \<Rightarrow> insert p (procs w) | SpawnError _ \<Rightarrow> procs w)\<rparr>)"

definition child_pid_String :: "child \<Rightarrow> string" where
  "child_pid_String c = (case c of Spawned p \<Rightarrow> dec p | SpawnError _ \<Rightarrow> ''undefined'')"

section \<open>The clock\<close>

text \<open>
  \<open>new Date()\<close> is an input of the model: a reading of the clock in UTC calendar fields,
  as \<open>toISOString\<close> prints them. \<open>getTime\<close> is its time value, the milliseconds since
  the epoch.
\<close>

record Date =
  utc_year :: int
  utc_month :: nat
  utc_day :: nat
  utc_hours :: nat
  utc_minutes :: nat
  utc_seconds :: nat
  utc_millis :: nat

definition valid_Date :: "Date \<Rightarrow> bool" where
  "valid_Date d =
     (1 \<le> utc_month d \<and> utc_month d \<le> 12 \<and> 1 \<le> utc_day d \<and> utc_day d \<le> 31 \<and>
      utc_hours d < 24 \<and> utc_minutes d < 60 \<and> utc_seconds d < 60 \<and> utc_millis d < 1000)"

definition days_from_civil :: "int \<Rightarrow> nat \<Rightarrow> nat \<Rightarrow> int" where
  "days_from_civil y m d =
     (let y' = (if m \<le> 2 then y - 1 else y);
          era = y' div 400;
          yoe = y' - era * 400;
          mp = (if 2 < m then int m - 3 else int m + 9);
          doy = (153 * mp + 2) div 5 + int d - 1;
          doe = yoe * 365 + yoe div 4 - yoe div 100 + doy
      in era * 146097 + doe - 719468)"

definition getTime :: "Date \<Rightarrow> int" where
  "getTime d =
     (((days_from_civil (utc_year d) (utc_month d) (utc_day d) * 24 + int (utc_hours d)) * 60
        + int (utc_minutes d)) * 60 + int (utc_seconds d)) * 1000 + int (utc_millis d)"

text \<open>
  \<open>toISOString\<close>: \<open>YYYY-MM-DDTHH:mm:ss.sssZ\<close>, and a sign with six digits for a year
  outside 0 to 9999.
\<close>

definition iso_year :: "int \<Rightarrow> string" where
  "iso_year y =
     (if 0 \<le> y \<and> y \<le> 9999 then padStart 4 (dec (nat y))
      else (if y < 0 then ''-'' else ''+'') @ padStart 6 (dec (nat \<bar>y\<bar>)))"

definition toISOString :: "Date \<Rightarrow> string" where
  "toISOString d =
     iso_year (utc_year d) @ ''-'' @ padStart 2 (dec (utc_month d)) @ ''-'' @
     padStart 2 (dec (utc_day d)) @ ''T'' @ padStart 2 (dec (utc_hours d)) @ '':'' @
     padStart 2 (dec (utc_minutes d)) @ '':'' @ padStart 2 (dec (utc_seconds d)) @ ''.'' @
     padStart 3 (dec (utc_millis d)) @ ''Z''"

section \<open>The status view (\<open>src/unnamed/part_000\<close>)\<close>

record Preferences =
  outputDir :: "string option"
  inputDevice :: "string option"
  audioDevice :: "string option"
  fps :: "string option"
  resolution :: "string option"

text \<open>
  One record serves both commands: the status view reads \<open>outputDir\<close>, \<open>audioDevice\<close> and
  \<open>fps\<close>, the toggle command declares all five. A preference may be absent
  (\<open>prefs.outputDir?.trim()\<close>).
\<close>

record status =
  active :: bool
  pid :: "string option"

definition PID_FILE :: "world \<Rightarrow> string" where
  "PID_FILE w = path_join [tmpdir w, ''raycast-ffmpeg.pid'']"

definition LOG_FILE :: "world \<Rightarrow> string" where
  "LOG_FILE w = path_join [tmpdir w, ''ffmpeg-recording.log'']"

definition getOutputDir :: "Preferences \<Rightarrow> string io" where
  "getOutputDir prefs w =
     (let dir = or_default (map_option trim (outputDir prefs)) (path_join [homedir w, ''Videos''])
      in if \<not> existsSync dir w
         then bind_io (mkdirSync_recursive dir) (\<lambda>_. return_io dir) w
         else return_io dir w)"

definition checkIsRecording :: "status io" where
  "checkIsRecording w =
     (if \<not> existsSync (PID_FILE w) w then return_io \<lparr>active = False, pid = None\<rparr> w
      else bind_io (readFileSync (PID_FILE w))
             (\<lambda>c. try_io
                (bind_io (execSync_kill SIG0 (trim c))
                   (\<lambda>_. return_io \<lparr>active = True, pid = Some (trim c)\<rparr>))
                (\<lambda>_. bind_io (unlinkSync (PID_FILE w))
                   (\<lambda>_. return_io \<lparr>active = False, pid = None\<rparr>))) w)"

definition stopRecording :: "unit io" where
  "stopRecording w =
     (if \<not> existsSync (PID_FILE w) w then return_io () w
      else bind_io (readFileSync (PID_FILE w))
             (\<lambda>c. bind_io
                (try_io (bind_io (execSync_kill SIGINT (trim c)) (\<lambda>_. execSync_sleep))
                   (\<lambda>_. return_io ()))
                (\<lambda>_ w'. if existsSync (PID_FILE w) w' then unlinkSync (PID_FILE w) w'
                         else return_io () w')) w)"

definition detectDisplay :: "world \<Rightarrow> string" where
  "detectDisplay w = or_default (env_DISPLAY w) '':0''"

text \<open>
  \<open>detectResolution\<close> runs the \<open>xdpyinfo | grep | awk\<close> pipeline through \<open>execSync\<close>.
  What the pipeline does for a display is an input of the model: \<open>Inl\<close> when \<open>execSync\<close>
  throws, \<open>Inr out\<close> when it returns the bytes \<open>out\<close>.
\<close>

definition detectResolution :: "(string \<Rightarrow> err + string) \<Rightarrow> string \<Rightarrow> string io" where
  "detectResolution xdpyinfo display =
     try_io
       (\<lambda>w. case xdpyinfo display of
               Inl e \<Rightarrow> throw_io e w
             | Inr out \<Rightarrow> return_io (or_default (Some (trim out)) ''1920x1080'') w)
       (\<lambda>_. return_io ''1920x1080'')"

text \<open>
  The timestamp of the file name: \<open>replace(/[:.]/g, "-")\<close> turns every colon and period
  into a dash, \<open>slice(0, 19)\<close> keeps the first 19 characters.
\<close>

definition dashed :: "char \<Rightarrow> char" where
  "dashed c = (if c = CHR '':'' \<or> c = CHR ''.'' then CHR ''-'' else c)"

definition timestamp :: "Date \<Rightarrow> string" where
  "timestamp now = take 19 (map dashed (toISOString now))"

definition recording_name :: "Date \<Rightarrow> string" where
  "recording_name now = ''recording-'' @ timestamp now @ ''.mp4''"

definition ffmpeg_args :: "string \<Rightarrow> string \<Rightarrow> string \<Rightarrow> string \<Rightarrow> string \<Rightarrow> string list" where
  "ffmpeg_args fps' resolution' display audio outputFile =
     [''-y'',
      ''-f'', ''x11grab'',
      ''-framerate'', fps',
      ''-s'', resolution',
      ''-i'', display @ ''.0+0,0'',
      ''-f'', ''pulse'',
      ''-i'', audio,
      ''-vcodec'', ''libx264'',
      ''-preset'', ''ultrafast'',
      ''-pix_fmt'', ''yuv420p'',
      ''-acodec'', ''aac'',
      ''-b:a'', ''128k'',
      outputFile]"

definition log_header :: "string list \<Rightarrow> string \<Rightarrow> string \<Rightarrow> string" where
  "log_header args display outputFile =
     ''CMD: ffmpeg '' @ join_with '' '' args @ [NL] @ ''DISPLAY: '' @ display @ [NL] @
     ''OUTPUT: '' @ outputFile @ [NL, NL] @ ''--- FFMPEG OUTPUT ---'' @ [NL]"

text \<open>
  \<open>startRecording\<close> takes the clock reading, the behaviour of the display pipeline and the
  outcome of the launch. The source returns nothing; the model returns the child, whose
  \<open>error\<close> listener \<open>on_spawn_error\<close> the event loop runs after \<open>startRecording\<close> has
  returned.
\<close>

definition startRecording ::
  "Date \<Rightarrow> (string \<Rightarrow> err + string) \<Rightarrow> child \<Rightarrow> Preferences \<Rightarrow> child io" where
  "startRecording now xdpyinfo outcome prefs =
     bind_io (getOutputDir prefs) (\<lambda>dir.
       (let outputFile = path_join [dir, recording_name now] in
        (\<lambda>w0.
          (let display = detectDisplay w0 in
           bind_io (detectResolution xdpyinfo display) (\<lambda>res.
             (let audio = or_default (map_option trim (audioDevice prefs)) ''default'';
                  fps' = or_default (map_option trim (fps prefs)) ''60'';
                  args = ffmpeg_args fps' res display audio outputFile
              in bind_io (writeFileSync (LOG_FILE w0) (log_header args display outputFile)) (\<lambda>_.
                 bind_io (openSync_a (LOG_FILE w0)) (\<lambda>_.
                   (\<lambda>w1. (case spawn outcome ''ffmpeg'' args w1 of
                             (c, w2) \<Rightarrow>
                               bind_io (writeFileSync (PID_FILE w2) (child_pid_String c))
                                 (\<lambda>_. return_io c) w2))))))) w0)))"

definition on_spawn_error :: "child \<Rightarrow> unit io" where
  "on_spawn_error c w =
     (case c of
        Spawned _ \<Rightarrow> return_io () w
      | SpawnError e \<Rightarrow> appendFileSync (LOG_FILE w) ([NL] @ ''SPAWN ERROR: '' @ e @ [NL]) w)"

definition readLogTail :: "string io" where
  "readLogTail =
     try_io
       (\<lambda>w. if \<not> existsSync (LOG_FILE w) w
             then return_io ''_No log yet. Start a recording to see ffmpeg output here._'' w
             else bind_io (readFileSync (LOG_FILE w))
                    (\<lambda>raw. (let content = trim raw in
                       if content = [] then return_io ''_Log is empty_''
                       else return_io (join_with [NL] (slice_last 25 (split_on NL content))))) w)
       (\<lambda>_. return_io ''_Could not read log_'')"

text \<open>
  \<open>handleStart\<close>: the launch inside \<open>try\<close>, then the wait of 800 ms, then the status check
  that decides the toast. During the wait the event loop runs the \<open>error\<close> listener (an
  exception there is uncaught, the \<open>Inl\<close> of the result), and processes may exit: which
  ones do, \<open>gone\<close>, is an input of the model.
\<close>

datatype toast = ToastStarted | ToastFailedToStart | ToastError err

definition handleStart ::
  "Date \<Rightarrow> (string \<Rightarrow> err + string) \<Rightarrow> child \<Rightarrow> Preferences \<Rightarrow> nat set \<Rightarrow> toast io" where
  "handleStart now xdpyinfo outcome prefs gone w =
     (case startRecording now xdpyinfo outcome prefs w of
        (Inl e, w1) \<Rightarrow> (Inr (ToastError e), w1)
      | (Inr c, w1) \<Rightarrow>
          (case on_spawn_error c w1 of
             (Inl e, w2) \<Rightarrow> (Inl e, w2)
           | (Inr _, w2) \<Rightarrow>
               (case checkIsRecording (w2\<lparr>procs := procs w2 - gone\<rparr>) of
                  (Inl e, w3) \<Rightarrow> (Inr (ToastError e), w3)
                | (Inr s, w3) \<Rightarrow>
                    (Inr (if active s then ToastStarted else ToastFailedToStart), w3))))"

section \<open>The toggle command (\<open>src/src/toggle-recording.ts\<close>)\<close>

definition toggle_LOG_FILE :: "world \<Rightarrow> string" where
  "toggle_LOG_FILE w = path_join [homedir w, ''Desktop'', ''ffmpeg-recording.log'']"

definition isRecording :: "bool io" where
  "isRecording w =
     (if \<not> existsSync (PID_FILE w) w then return_io False w
      else bind_io (readFileSync (PID_FILE w))
             (\<lambda>c. try_io
                (bind_io (execSync_kill SIG0 (trim c)) (\<lambda>_. return_io True))
                (\<lambda>_. bind_io (unlinkSync (PID_FILE w)) (\<lambda>_. return_io False))) w)"

definition toggle_stopRecording :: "unit io" where
  "toggle_stopRecording w =
     bind_io (readFileSync (PID_FILE w))
       (\<lambda>c. bind_io
          (try_io (execSync_kill SIGINT (trim c)) (\<lambda>_. return_io ()))
          (\<lambda>_ w'. if existsSync (PID_FILE w) w' then unlinkSync (PID_FILE w) w'
                   else return_io () w')) w"

definition toggle_args :: "Preferences \<Rightarrow> string \<Rightarrow> string list" where
  "toggle_args prefs outputFile =
     [''-f'', ''avfoundation'',
      ''-framerate'', or_default (fps prefs) ''30'',
      ''-capture_cursor'', ''1'',
      ''-i'', or_default (inputDevice prefs) ''1'' @ '':'' @ or_default (audioDevice prefs) ''0'',
      ''-vcodec'', ''libx264'',
      ''-preset'', ''ultrafast'',
      ''-pix_fmt'', ''yuv420p'',
      ''-acodec'', ''aac'',
      outputFile]"

definition toggle_outputFile :: "Date \<Rightarrow> Preferences \<Rightarrow> world \<Rightarrow> string" where
  "toggle_outputFile now prefs w =
     path_join [or_default (outputDir prefs) (path_join [homedir w, ''Desktop'']),
                recording_name now]"

definition toggle_startRecording :: "Date \<Rightarrow> child \<Rightarrow> Preferences \<Rightarrow> child io" where
  "toggle_startRecording now outcome prefs w =
     (let args = toggle_args prefs (toggle_outputFile now prefs w) in
      bind_io (openSync_w (toggle_LOG_FILE w)) (\<lambda>_.
        bind_io (openSync_a (toggle_LOG_FILE w)) (\<lambda>_.
          (\<lambda>w1. (case spawn outcome ''ffmpeg'' args w1 of
                    (c, w2) \<Rightarrow>
                      bind_io (writeFileSync (PID_FILE w2) (child_pid_String c))
                        (\<lambda>_. return_io c) w2)))) w)"

datatype hud = HudStopped | HudStarted | HudFailed err

definition toggle_main :: "Date \<Rightarrow> child \<Rightarrow> Preferences \<Rightarrow> hud io" where
  "toggle_main now outcome prefs =
     bind_io isRecording (\<lambda>rec.
       if rec then bind_io toggle_stopRecording (\<lambda>_. return_io HudStopped)
       else try_io
              (bind_io (toggle_startRecording now outcome prefs) (\<lambda>_. return_io HudStarted))
              (\<lambda>e. return_io (HudFailed e)))"

section \<open>Auxiliary notions and example worlds\<close>

text \<open>The resolved location of the marker file.\<close>

definition marker :: "world \<Rightarrow> string list" where
  "marker w = resolve (cwd w) (PID_FILE w)"

text \<open>The parts of the world that no operation of the program changes.\<close>

definition same_env :: "world \<Rightarrow> world \<Rightarrow> bool" where
  "same_env w w' =
     (cwd w' = cwd w \<and> tmpdir w' = tmpdir w \<and> homedir w' = homedir w \<and>
      env_DISPLAY w' = env_DISPLAY w \<and> shell_kill w' = shell_kill w)"

definition idle_world :: world where
  "idle_world =
     \<lparr>files = [[''tmp''] \<mapsto> Dir, [''home''] \<mapsto> Dir, [''home'', ''u''] \<mapsto> Dir],
      procs = {}, shell_kill = (\<lambda>sg txt. False), spawned = [], cwd = [''home'', ''u''],
      tmpdir = ''/tmp'', homedir = ''/home/u'', env_DISPLAY = None\<rparr>"

definition stale_world :: world where
  "stale_world =
     idle_world\<lparr>files := (files idle_world)([''tmp'', ''raycast-ffmpeg.pid''] \<mapsto> File ''4242'')\<rparr>"

definition recording_world :: world where
  "recording_world = stale_world\<lparr>procs := {4242}\<rparr>"

definition no_prefs :: Preferences where
  "no_prefs =
     \<lparr>outputDir = None, inputDevice = None, audioDevice = None, fps = None, resolution = None\<rparr>"

definition morning :: Date where
  "morning =
     \<lparr>utc_year = 2024, utc_month = 3, utc_day = 9, utc_hours = 7, utc_minutes = 5,
      utc_seconds = 59, utc_millis = 12\<rparr>"

definition desktop_world :: world where
  "desktop_world =
     idle_world\<lparr>files := (files idle_world)([''home'', ''u'', ''Desktop''] \<mapsto> Dir)\<rparr>"

text \<open>A path segment that names an entry: not empty, not \<open>.\<close> or \<open>..\<close>, without a slash.\<close>

definition plain :: "string \<Rightarrow> bool" where
  "plain s = (s \<noteq> [] \<and> s \<noteq> ''.'' \<and> s \<noteq> ''..'' \<and> CHR ''/'' \<notin> set s)"

text \<open>A display pipeline that makes \<open>execSync\<close> throw, and one that prints a resolution.\<close>

definition pipeline_throws :: "string \<Rightarrow> err + string" where
  "pipeline_throws display = Inl ExecFailed"

definition pipeline_prints :: "string \<Rightarrow> err + string" where
  "pipeline_prints display = Inr (''1280x720'' @ [NL])"

definition no_ffmpeg :: child where
  "no_ffmpeg = SpawnError ''Error: spawn ffmpeg ENOENT''"

definition pipeline_silent :: "string \<Rightarrow> err + string" where
  "pipeline_silent display = Inr [NL]"

definition pipeline_garbage :: "string \<Rightarrow> err + string" where
  "pipeline_garbage display = Inr (''garbage'' @ [NL])"

text \<open>Worlds with a log file: one line per letter, and a log of white space only.\<close>

definition letter_lines :: "string \<Rightarrow> string" where
  "letter_lines s = join_with [NL] (map (\<lambda>ch. [ch]) s)"

definition with_log :: "node \<Rightarrow> world" where
  "with_log n = idle_world\<lparr>files := (files idle_world)([''tmp'', ''ffmpeg-recording.log''] \<mapsto> n)\<rparr>"

definition alphabet_log :: string where
  "alphabet_log = letter_lines ''abcdefghijklmnopqrstuvwxyz'' @ [NL, NL, NL]"

text \<open>The directory \<open>getOutputDir\<close> settles on, before it looks at the file system.\<close>

definition chosen_dir :: "Preferences \<Rightarrow> world \<Rightarrow> string" where
  "chosen_dir prefs w =
     or_default (map_option trim (outputDir prefs)) (path_join [homedir w, ''Videos''])"

text \<open>The nodes on the way down from \<open>pre\<close> along \<open>ss\<close>, the last one being \<open>pre @ ss\<close>.\<close>

fun dirs_down :: "string list \<Rightarrow> string list \<Rightarrow> string list list" where
  "dirs_down pre [] = []"
| "dirs_down pre (s # ss) = (pre @ [s]) # dirs_down (pre @ [s]) ss"

definition blank_prefs :: Preferences where
  "blank_prefs = no_prefs\<lparr>outputDir := Some ''  ''\<rparr>"

definition out_prefs :: Preferences where
  "out_prefs = no_prefs\<lparr>outputDir := Some ''/tmp/out''\<rparr>"

definition a_second_earlier :: Date where
  "a_second_earlier = morning\<lparr>utc_seconds := 58\<rparr>"

definition far_future :: Date where
  "far_future = morning\<lparr>utc_year := 10000, utc_seconds := 0\<rparr>"

definition far_future_later :: Date where
  "far_future_later = morning\<lparr>utc_year := 10000, utc_seconds := 30\<rparr>"

text \<open>A world where the fallback directory exists, and one where a file is in its way.\<close>

definition videos_world :: world where
  "videos_world =
     idle_world\<lparr>files := (files idle_world)([''home'', ''u'', ''Videos''] \<mapsto> Dir)\<rparr>"

definition blocked_world :: world where
  "blocked_world = idle_world\<lparr>files := (files idle_world)([''home'', ''u''] \<mapsto> File [])\<rparr>"

text \<open>
  Worlds whose marker is not a pid: a file without access, a directory, and the text
  \<open>-1\<close>, for which the shell's \<open>kill -0\<close> succeeds while processes are running.
\<close>

definition locked_marker_world :: world where
  "locked_marker_world =
     idle_world\<lparr>files := (files idle_world)([''tmp'', ''raycast-ffmpeg.pid''] \<mapsto> NoAccess)\<rparr>"

definition dir_marker_world :: world where
  "dir_marker_world =
     idle_world\<lparr>files := (files idle_world)([''tmp'', ''raycast-ffmpeg.pid''] \<mapsto> Dir)\<rparr>"

definition minus_one_world :: world where
  "minus_one_world =
     idle_world\<lparr>files := (files idle_world)([''tmp'', ''raycast-ffmpeg.pid''] \<mapsto> File ''-1''),
                procs := {77},
                shell_kill := (\<lambda>sg txt. txt = ''-1'')\<rparr>"

section \<open>Basic facts\<close>

lemma same_env_refl [simp]: "same_env w w"
  by (simp add: same_env_def)

lemma same_env_trans: "same_env w w1 \<Longrightarrow> same_env w1 w2 \<Longrightarrow> same_env w w2"
  by (simp add: same_env_def)

lemma same_env_upd [simp]:
  "same_env w (w'\<lparr>files := f\<rparr>) = same_env w w'"
  "same_env w (w'\<lparr>procs := P\<rparr>) = same_env w w'"
  "same_env w (w'\<lparr>spawned := S\<rparr>) = same_env w w'"
  "same_env (w\<lparr>files := f\<rparr>) w' = same_env w w'"
  "same_env (w\<lparr>procs := P\<rparr>) w' = same_env w w'"
  "same_env (w\<lparr>spawned := S\<rparr>) w' = same_env w w'"
  by (simp_all add: same_env_def)

lemma same_env_PID_FILE: "same_env w w' \<Longrightarrow> PID_FILE w' = PID_FILE w"
  by (simp add: same_env_def PID_FILE_def)

lemma same_env_LOG_FILE: "same_env w w' \<Longrightarrow> LOG_FILE w' = LOG_FILE w"
  by (simp add: same_env_def LOG_FILE_def)

lemma same_env_marker: "same_env w w' \<Longrightarrow> marker w' = marker w"
  by (simp add: same_env_def marker_def PID_FILE_def)

lemma PID_FILE_upd [simp]:
  "PID_FILE (w\<lparr>files := f\<rparr>) = PID_FILE w"
  "PID_FILE (w\<lparr>procs := P\<rparr>) = PID_FILE w"
  "PID_FILE (w\<lparr>spawned := S\<rparr>) = PID_FILE w"
  by (simp_all add: PID_FILE_def)

lemma marker_upd [simp]:
  "marker (w\<lparr>files := f\<rparr>) = marker w"
  "marker (w\<lparr>procs := P\<rparr>) = marker w"
  "marker (w\<lparr>spawned := S\<rparr>) = marker w"
  by (simp_all add: marker_def)

lemma bind_io_Inr:
  "bind_io m k w = (Inr y, w') \<longleftrightarrow> (\<exists>x w1. m w = (Inr x, w1) \<and> k x w1 = (Inr y, w'))"
  by (auto simp: bind_io_def split: prod.splits sum.splits)

lemma node_at_upd [simp]:
  "node_at (w\<lparr>procs := P\<rparr>) p = node_at w p"
  "node_at (w\<lparr>spawned := S\<rparr>) p = node_at w p"
  by (simp_all add: node_at_def Let_def)

lemma node_at_File:
  "node_at w p = Some (File c) \<longleftrightarrow>
     resolve (cwd w) p \<noteq> [] \<and> files w (resolve (cwd w) p) = Some (File c)"
  by (auto simp: node_at_def Let_def)

lemma marker_removed:
  "marker w \<noteq> [] \<Longrightarrow> \<not> existsSync (PID_FILE w) (w\<lparr>files := (files w)(marker w := None)\<rparr>)"
  by (simp add: existsSync_def node_at_def marker_def)

lemma put_file_Inr:
  "put_file f p w = (Inr u, w') \<Longrightarrow>
     resolve (cwd w) p \<noteq> [] \<and> same_env w w' \<and> procs w' = procs w \<and> spawned w' = spawned w \<and>
     (\<exists>c. files w' = (files w)(resolve (cwd w) p \<mapsto> File (f c)) \<and>
           (node_at w p = Some (File c) \<or> node_at w p = None \<and> c = []))"
  by (auto simp: put_file_def Let_def node_at_def split: option.splits node.splits if_splits)

lemma writeFileSync_node:
  "writeFileSync p d w = (Inr u, w') \<Longrightarrow> node_at w' p = Some (File d) \<and> same_env w w'"
  unfolding writeFileSync_def
  by (auto simp: put_file_def Let_def node_at_def same_env_def
      split: option.splits node.splits if_splits)

lemma spawn_env:
  "spawn outcome cmd args w = (c, w') \<Longrightarrow> c = outcome \<and> same_env w w' \<and> files w' = files w"
  by (auto simp: spawn_def)

lemma mkdirs_env:
  "mkdirs pre ss w = (r, w') \<Longrightarrow> same_env w w' \<and> procs w' = procs w \<and> spawned w' = spawned w"
proof (induction ss arbitrary: pre w)
  case Nil
  then show ?case by auto
next
  case (Cons s ss)
  show ?case
  proof (cases "files w (pre @ [s])")
    case None
    with Cons.prems
    have "mkdirs (pre @ [s]) ss (w\<lparr>files := (files w)(pre @ [s] \<mapsto> Dir)\<rparr>) = (r, w')"
      by simp
    from Cons.IH [OF this] show ?thesis by simp
  next
    case (Some n)
    with Cons.prems Cons.IH [of "pre @ [s]" w] show ?thesis
      by (cases n) auto
  qed
qed

lemma getOutputDir_env:
  "getOutputDir prefs w = (r, w') \<Longrightarrow>
     same_env w w' \<and> procs w' = procs w \<and> spawned w' = spawned w"
  by (auto simp: getOutputDir_def Let_def bind_io_def return_io_def mkdirSync_recursive_def
      split: if_splits prod.splits sum.splits dest: mkdirs_env)

lemma detectResolution_returns:
  "detectResolution xd display w =
     (Inr (case xd display of Inl e \<Rightarrow> ''1920x1080''
           | Inr out \<Rightarrow> or_default (Some (trim out)) ''1920x1080''), w)"
  by (simp add: detectResolution_def try_io_def throw_io_def return_io_def split: sum.splits)

subsection \<open>The status check\<close>

lemma checkIsRecording_absent:
  "node_at w (PID_FILE w) = None \<Longrightarrow>
   checkIsRecording w = (Inr \<lparr>active = False, pid = None\<rparr>, w)"
  by (simp add: checkIsRecording_def existsSync_def return_io_def)

lemma checkIsRecording_alive:
  "node_at w (PID_FILE w) = Some (File c) \<Longrightarrow> kill_succeeds w SIG0 (trim c) \<Longrightarrow>
   checkIsRecording w = (Inr \<lparr>active = True, pid = Some (trim c)\<rparr>, w)"
  by (simp add: checkIsRecording_def existsSync_def return_io_def bind_io_def try_io_def
      readFileSync_def execSync_kill_def)

lemma checkIsRecording_stale:
  "node_at w (PID_FILE w) = Some (File c) \<Longrightarrow> \<not> kill_succeeds w SIG0 (trim c) \<Longrightarrow>
   checkIsRecording w =
     (Inr \<lparr>active = False, pid = None\<rparr>, w\<lparr>files := (files w)(marker w := None)\<rparr>)"
  by (simp add: checkIsRecording_def existsSync_def return_io_def bind_io_def try_io_def
      readFileSync_def execSync_kill_def unlinkSync_def marker_def)

lemma isRecording_absent:
  "node_at w (PID_FILE w) = None \<Longrightarrow> isRecording w = (Inr False, w)"
  by (simp add: isRecording_def existsSync_def return_io_def)

lemma isRecording_alive:
  "node_at w (PID_FILE w) = Some (File c) \<Longrightarrow> kill_succeeds w SIG0 (trim c) \<Longrightarrow>
   isRecording w = (Inr True, w)"
  by (simp add: isRecording_def existsSync_def return_io_def bind_io_def try_io_def
      readFileSync_def execSync_kill_def)

lemma isRecording_stale:
  "node_at w (PID_FILE w) = Some (File c) \<Longrightarrow> \<not> kill_succeeds w SIG0 (trim c) \<Longrightarrow>
   isRecording w = (Inr False, w\<lparr>files := (files w)(marker w := None)\<rparr>)"
  by (simp add: isRecording_def existsSync_def return_io_def bind_io_def try_io_def
      readFileSync_def execSync_kill_def unlinkSync_def marker_def)



lemma marker_File_nonempty:
  "node_at w (PID_FILE w) = Some (File c) \<Longrightarrow> marker w \<noteq> []"
  by (simp add: node_at_File marker_def)

subsection \<open>The example worlds\<close>

lemma example_PID_FILE:
  "tmpdir w = ''/tmp'' \<Longrightarrow> PID_FILE w = ''/tmp/raycast-ffmpeg.pid''"
  by (simp add: PID_FILE_def path_join_def path_normalize_def normalizeString_def
      normalize_step_def isAbsolute_def Let_def)

lemma example_marker:
  "tmpdir w = ''/tmp'' \<Longrightarrow> marker w = [''tmp'', ''raycast-ffmpeg.pid'']"
  by (simp add: marker_def example_PID_FILE resolve_def normalize_step_def isAbsolute_def)

lemma example_tmpdir [simp]:
  "tmpdir idle_world = ''/tmp''" "tmpdir stale_world = ''/tmp''"
  "tmpdir recording_world = ''/tmp''" "tmpdir locked_marker_world = ''/tmp''"
  "tmpdir dir_marker_world = ''/tmp''" "tmpdir minus_one_world = ''/tmp''"
  by (simp_all add: idle_world_def stale_world_def recording_world_def
      locked_marker_world_def dir_marker_world_def minus_one_world_def)

lemma example_parse_pid: "parse_pid ''4242'' = Some 4242" "parse_pid ''-1'' = None"
  by (simp_all add: parse_pid_def digits_value_def is_digit_def)

lemma example_kill:
  "\<not> kill_succeeds stale_world SIG0 ''4242''" "kill_succeeds recording_world SIG0 ''4242''"
  "kill_succeeds minus_one_world SIG0 ''-1''"
  by (simp_all add: kill_succeeds_def example_parse_pid stale_world_def recording_world_def
      idle_world_def minus_one_world_def)

lemma example_trim: "trim ''4242'' = ''4242''" "trim ''-1'' = ''-1''"
  by (simp_all add: trim_def is_space_def)

lemma example_node_at:
  "node_at idle_world (PID_FILE idle_world) = None"
  "node_at stale_world (PID_FILE stale_world) = Some (File ''4242'')"
  "node_at recording_world (PID_FILE recording_world) = Some (File ''4242'')"
  "node_at locked_marker_world (PID_FILE locked_marker_world) = Some NoAccess"
  "node_at dir_marker_world (PID_FILE dir_marker_world) = Some Dir"
  "node_at minus_one_world (PID_FILE minus_one_world) = Some (File ''-1'')"
  by (simp_all add: node_at_def Let_def marker_def [symmetric] example_marker)
     (simp_all add: idle_world_def stale_world_def recording_world_def
        locked_marker_world_def dir_marker_world_def minus_one_world_def)

lemma kill_succeeds_decimal:
  "parse_pid txt = Some p \<Longrightarrow> kill_succeeds w sg txt = (p \<in> procs w)"
  by (simp add: kill_succeeds_def)

text \<open>
  A marker text that is not a decimal number is read by the shell: with the text \<open>-1\<close> and
  a \<open>kill -0 -1\<close> that succeeds, both checks answer active and keep the marker.
\<close>

lemma status_check_shell_text:
  "node_at minus_one_world (PID_FILE minus_one_world) = Some (File ''-1'')"
  "checkIsRecording minus_one_world =
     (Inr \<lparr>active = True, pid = Some ''-1''\<rparr>, minus_one_world)"
  "isRecording minus_one_world = (Inr True, minus_one_world)"
  using checkIsRecording_alive [of minus_one_world "''-1''"]
    isRecording_alive [of minus_one_world "''-1''"]
  by (simp_all add: example_node_at example_kill example_trim)

section \<open>The status check\<close>




text \<open>
  Claim C5. When the marker is a readable file whose trimmed content is the decimal id of a
  process that does not exist, the status check of either command returns inactive and
  leaves a world without the marker; run again in that world it returns inactive again,
  without an exception and without a further change.
\<close>

theorem stale_marker_idempotent:
  assumes "node_at w (PID_FILE w) = Some (File c)"
    and "parse_pid (trim c) = Some p" and "p \<notin> procs w"
  shows "\<exists>w'. checkIsRecording w = (Inr \<lparr>active = False, pid = None\<rparr>, w') \<and>
              isRecording w = (Inr False, w') \<and>
              \<not> existsSync (PID_FILE w') w' \<and>
              checkIsRecording w' = (Inr \<lparr>active = False, pid = None\<rparr>, w') \<and>
              isRecording w' = (Inr False, w')"
proof -
  let ?w' = "w\<lparr>files := (files w)(marker w := None)\<rparr>"
  have dead: "\<not> kill_succeeds w SIG0 (trim c)"
    using assms(2,3) by (simp add: kill_succeeds_decimal)
  have gone: "\<not> existsSync (PID_FILE ?w') ?w'"
    using marker_removed [of w] marker_File_nonempty [OF assms(1)] by simp
  then have absent: "node_at ?w' (PID_FILE ?w') = None"
    by (simp add: existsSync_def)
  show ?thesis
    using checkIsRecording_stale [OF assms(1) dead] isRecording_stale [OF assms(1) dead] gone
      checkIsRecording_absent [OF absent] isRecording_absent [OF absent]
    by blast
qed

theorem stale_marker_idempotent_witness:
  "\<exists>w'. checkIsRecording stale_world = (Inr \<lparr>active = False, pid = None\<rparr>, w') \<and>
         isRecording stale_world = (Inr False, w') \<and>
         \<not> existsSync (PID_FILE w') w' \<and>
         checkIsRecording w' = (Inr \<lparr>active = False, pid = None\<rparr>, w') \<and>
         isRecording w' = (Inr False, w')"
proof -
  have "4242 \<notin> procs stale_world" by (simp add: stale_world_def idle_world_def)
  then show ?thesis
    using stale_marker_idempotent [of stale_world "''4242''" 4242]
    by (simp add: example_node_at example_trim example_parse_pid)
qed

section \<open>Stopping\<close>

lemma stopRecording_absent:
  "node_at w (PID_FILE w) = None \<Longrightarrow> stopRecording w = (Inr (), w)"
  by (simp add: stopRecording_def existsSync_def return_io_def)

lemma stopRecording_File:
  "node_at w (PID_FILE w) = Some (File c) \<Longrightarrow>
   stopRecording w = (Inr (), w\<lparr>files := (files w)(marker w := None)\<rparr>)"
  by (simp add: stopRecording_def existsSync_def bind_io_def try_io_def readFileSync_def
      execSync_kill_def execSync_sleep_def return_io_def unlinkSync_def marker_def)

lemma toggle_stopRecording_absent:
  "node_at w (PID_FILE w) = None \<Longrightarrow> toggle_stopRecording w = (Inl ENOENT, w)"
  by (simp add: toggle_stopRecording_def bind_io_def readFileSync_def)

lemma toggle_stopRecording_File:
  "node_at w (PID_FILE w) = Some (File c) \<Longrightarrow>
   toggle_stopRecording w = (Inr (), w\<lparr>files := (files w)(marker w := None)\<rparr>)"
  by (simp add: toggle_stopRecording_def existsSync_def bind_io_def try_io_def readFileSync_def
      execSync_kill_def return_io_def unlinkSync_def marker_def)

lemma isRecording_True:
  assumes "isRecording w = (Inr True, w')"
  shows "w' = w \<and> (\<exists>c. node_at w (PID_FILE w) = Some (File c) \<and> kill_succeeds w SIG0 (trim c))"
proof (cases "node_at w (PID_FILE w)")
  case None
  with assms show ?thesis by (simp add: isRecording_absent)
next
  case (Some n)
  show ?thesis
  proof (cases n)
    case (File c)
    with Some assms isRecording_alive [of w c] isRecording_stale [of w c] show ?thesis
      by (cases "kill_succeeds w SIG0 (trim c)") auto
  next
    case NoAccess
    with Some assms show ?thesis
      by (simp add: isRecording_def existsSync_def bind_io_def readFileSync_def)
  next
    case Dir
    with Some assms show ?thesis
      by (simp add: isRecording_def existsSync_def bind_io_def readFileSync_def)
  qed
qed

text \<open>
  Claim C4, as amended. In a world without the marker file the status view's
  \<open>stopRecording\<close> returns normally and changes nothing. The toggle command's
  \<open>stopRecording\<close> has no such guard: there it changes nothing either, but throws the
  \<open>ENOENT\<close> of reading the marker. Its caller \<open>main\<close> reaches it only after \<open>isRecording\<close>
  has returned true, which leaves the marker a readable file; from there it returns
  normally and the marker is gone.
\<close>

theorem stop_without_marker:
  "(node_at w (PID_FILE w) = None \<longrightarrow>
      stopRecording w = (Inr (), w) \<and> toggle_stopRecording w = (Inl ENOENT, w)) \<and>
   (isRecording w = (Inr True, w') \<longrightarrow>
      (\<exists>c. node_at w' (PID_FILE w') = Some (File c)) \<and>
      (\<exists>w''. toggle_stopRecording w' = (Inr (), w'') \<and> \<not> existsSync (PID_FILE w'') w''))"
proof (intro conjI impI)
  assume "node_at w (PID_FILE w) = None"
  then show "stopRecording w = (Inr (), w)" "toggle_stopRecording w = (Inl ENOENT, w)"
    by (simp_all add: stopRecording_absent toggle_stopRecording_absent)
next
  assume "isRecording w = (Inr True, w')"
  then obtain c where c: "node_at w' (PID_FILE w') = Some (File c)"
    using isRecording_True by blast
  then show "\<exists>c. node_at w' (PID_FILE w') = Some (File c)" ..
  let ?w'' = "w'\<lparr>files := (files w')(marker w' := None)\<rparr>"
  have "\<not> existsSync (PID_FILE ?w'') ?w''"
    using marker_removed [of w'] marker_File_nonempty [OF c] by simp
  with toggle_stopRecording_File [OF c]
  show "\<exists>w''. toggle_stopRecording w' = (Inr (), w'') \<and> \<not> existsSync (PID_FILE w'') w''"
    by blast
qed

theorem stop_without_marker_witness:
  "stopRecording idle_world = (Inr (), idle_world) \<and>
   toggle_stopRecording idle_world = (Inl ENOENT, idle_world) \<and>
   (\<exists>w''. toggle_stopRecording recording_world = (Inr (), w'') \<and>
          \<not> existsSync (PID_FILE w'') w'')"
proof -
  have "isRecording recording_world = (Inr True, recording_world)"
    using isRecording_alive [of recording_world "''4242''"]
    by (simp add: example_node_at example_kill example_trim)
  then show ?thesis
    using stop_without_marker [of idle_world recording_world]
      stop_without_marker [of recording_world recording_world]
    by (simp add: example_node_at)
qed

theorem toggle_stop_without_marker_counterexample:
  "\<not> existsSync (PID_FILE idle_world) idle_world \<and>
   fst (toggle_stopRecording idle_world) = Inl ENOENT"
  by (simp add: existsSync_def example_node_at toggle_stopRecording_absent)

section \<open>Starting, then stopping\<close>

lemma startRecording_marker:
  assumes "startRecording now xd outcome prefs w = (Inr c, w')"
  shows "same_env w w' \<and> c = outcome \<and> node_at w' (PID_FILE w') = Some (File (child_pid_String c))"
proof -
  from assms obtain dir w1 u2 w2 u3 w3 where
    g: "getOutputDir prefs w = (Inr dir, w1)" and
    l: "writeFileSync (LOG_FILE w1) u2 w1 = (Inr (), w2)" and
    a: "openSync_a (LOG_FILE w1) w2 = (Inr (), w3)" and
    p: "(case spawn outcome ''ffmpeg'' u3 w3 of
           (c', w4) \<Rightarrow> bind_io (writeFileSync (PID_FILE w4) (child_pid_String c')) (\<lambda>_. return_io c') w4)
        = (Inr c, w')"
    by (auto simp: startRecording_def Let_def bind_io_Inr detectResolution_returns)
  obtain c' w4 where s: "spawn outcome ''ffmpeg'' u3 w3 = (c', w4)"
    by (cases "spawn outcome ''ffmpeg'' u3 w3")
  with p have q: "writeFileSync (PID_FILE w4) (child_pid_String c') w4 = (Inr (), w')" and cc: "c = c'"
    by (auto simp: bind_io_Inr return_io_def)
  have e1: "same_env w w1" using g getOutputDir_env by blast
  have e2: "same_env w1 w2" using l writeFileSync_node by blast
  have e3: "same_env w2 w3" using a put_file_Inr unfolding openSync_a_def by blast
  have e4: "same_env w3 w4" and co: "c' = outcome" using s spawn_env by blast+
  have e5: "same_env w4 w'" and n: "node_at w' (PID_FILE w4) = Some (File (child_pid_String c'))"
    using q writeFileSync_node by blast+
  have "same_env w w'" using e1 e2 e3 e4 e5 same_env_trans by blast
  moreover have "PID_FILE w' = PID_FILE w4" using e5 same_env_PID_FILE by blast
  ultimately show ?thesis using n cc co by simp
qed

lemma toggle_startRecording_marker:
  assumes "toggle_startRecording now outcome prefs w = (Inr c, w')"
  shows "same_env w w' \<and> c = outcome \<and> node_at w' (PID_FILE w') = Some (File (child_pid_String c))"
proof -
  from assms obtain w2 w3 u3 where
    l: "openSync_w (toggle_LOG_FILE w) w = (Inr (), w2)" and
    a: "openSync_a (toggle_LOG_FILE w) w2 = (Inr (), w3)" and
    p: "(case spawn outcome ''ffmpeg'' u3 w3 of
           (c', w4) \<Rightarrow> bind_io (writeFileSync (PID_FILE w4) (child_pid_String c')) (\<lambda>_. return_io c') w4)
        = (Inr c, w')"
    by (auto simp: toggle_startRecording_def Let_def bind_io_Inr)
  obtain c' w4 where s: "spawn outcome ''ffmpeg'' u3 w3 = (c', w4)"
    by (cases "spawn outcome ''ffmpeg'' u3 w3")
  with p have q: "writeFileSync (PID_FILE w4) (child_pid_String c') w4 = (Inr (), w')" and cc: "c = c'"
    by (auto simp: bind_io_Inr return_io_def)
  have e2: "same_env w w2" using l put_file_Inr unfolding openSync_w_def by blast
  have e3: "same_env w2 w3" using a put_file_Inr unfolding openSync_a_def by blast
  have e4: "same_env w3 w4" and co: "c' = outcome" using s spawn_env by blast+
  have e5: "same_env w4 w'" and n: "node_at w' (PID_FILE w4) = Some (File (child_pid_String c'))"
    using q writeFileSync_node by blast+
  have "same_env w w'" using e2 e3 e4 e5 same_env_trans by blast
  moreover have "PID_FILE w' = PID_FILE w4" using e5 same_env_PID_FILE by blast
  ultimately show ?thesis using n cc co by simp
qed

lemma stop_after_marker:
  assumes "node_at w1 (PID_FILE w1) = Some (File s)"
  shows "\<exists>w2. stopRecording (w1\<lparr>procs := P\<rparr>) = (Inr (), w2) \<and> \<not> existsSync (PID_FILE w2) w2"
    and "\<exists>w2. toggle_stopRecording (w1\<lparr>procs := P\<rparr>) = (Inr (), w2) \<and> \<not> existsSync (PID_FILE w2) w2"
proof -
  let ?w = "w1\<lparr>procs := P\<rparr>"
  let ?w2 = "?w\<lparr>files := (files ?w)(marker ?w := None)\<rparr>"
  have n: "node_at ?w (PID_FILE ?w) = Some (File s)" using assms by simp
  have g: "\<not> existsSync (PID_FILE ?w2) ?w2"
    using marker_removed [of ?w] marker_File_nonempty [OF n] by simp
  show "\<exists>w2. stopRecording ?w = (Inr (), w2) \<and> \<not> existsSync (PID_FILE w2) w2"
    using stopRecording_File [OF n] g by blast
  show "\<exists>w2. toggle_stopRecording ?w = (Inr (), w2) \<and> \<not> existsSync (PID_FILE w2) w2"
    using toggle_stopRecording_File [OF n] g by blast
qed

text \<open>
  Claim C3. Whenever \<open>startRecording\<close> of either command has returned normally, the
  \<open>stopRecording\<close> of that command, run in the world it left and whatever processes are
  alive by then, returns normally and leaves a world without the marker file. The signalled
  process may be alive or gone, and the launch may have failed: a \<open>kill\<close> that fails is
  swallowed.
\<close>

theorem start_then_stop_marker_absent:
  "(startRecording now xd outcome prefs w = (Inr c, w1) \<longrightarrow>
      (\<forall>P. \<exists>w2. stopRecording (w1\<lparr>procs := P\<rparr>) = (Inr (), w2) \<and>
                 \<not> existsSync (PID_FILE w2) w2)) \<and>
   (toggle_startRecording now outcome prefs w = (Inr c', w1') \<longrightarrow>
      (\<forall>P. \<exists>w2. toggle_stopRecording (w1'\<lparr>procs := P\<rparr>) = (Inr (), w2) \<and>
                 \<not> existsSync (PID_FILE w2) w2))"
  using startRecording_marker [of now xd outcome prefs w c w1]
    toggle_startRecording_marker [of now outcome prefs w c' w1']
    stop_after_marker [of w1] stop_after_marker [of w1']
  by blast

lemmas io_defs =
  bind_io_def return_io_def throw_io_def try_io_def existsSync_def node_at_def is_dir_def
  put_file_def writeFileSync_def appendFileSync_def openSync_a_def openSync_w_def
  readFileSync_def unlinkSync_def mkdirSync_recursive_def spawn_def child_pid_String_def
  execSync_kill_def execSync_sleep_def

lemmas path_defs =
  path_join_def path_normalize_def normalizeString_def normalize_step_def isAbsolute_def
  resolve_def PID_FILE_def LOG_FILE_def toggle_LOG_FILE_def

lemmas example_defs =
  idle_world_def desktop_world_def stale_world_def recording_world_def no_prefs_def

lemma example_start:
  "fst (startRecording morning pipeline_throws (Spawned 4242) no_prefs idle_world)
     = Inr (Spawned 4242)"
  "fst (toggle_startRecording morning (Spawned 4242) no_prefs desktop_world)
     = Inr (Spawned 4242)"
  "fst (startRecording morning pipeline_throws no_ffmpeg no_prefs idle_world) = Inr no_ffmpeg"
  "fst (toggle_startRecording morning no_ffmpeg no_prefs desktop_world) = Inr no_ffmpeg"
  by (simp_all add: startRecording_def toggle_startRecording_def getOutputDir_def
      detectDisplay_def detectResolution_def or_default_def Let_def pipeline_throws_def
      no_ffmpeg_def io_defs path_defs example_defs)

theorem start_then_stop_marker_absent_witness:
  "(\<exists>w1. startRecording morning pipeline_throws (Spawned 4242) no_prefs idle_world
           = (Inr (Spawned 4242), w1) \<and>
      (\<forall>P. \<exists>w2. stopRecording (w1\<lparr>procs := P\<rparr>) = (Inr (), w2) \<and>
                 \<not> existsSync (PID_FILE w2) w2)) \<and>
   (\<exists>w1. toggle_startRecording morning (Spawned 4242) no_prefs desktop_world
           = (Inr (Spawned 4242), w1) \<and>
      (\<forall>P. \<exists>w2. toggle_stopRecording (w1\<lparr>procs := P\<rparr>) = (Inr (), w2) \<and>
                 \<not> existsSync (PID_FILE w2) w2))"
proof -
  obtain w1 where a: "startRecording morning pipeline_throws (Spawned 4242) no_prefs idle_world
      = (Inr (Spawned 4242), w1)"
    using example_start(1) by (metis prod.collapse)
  obtain w1' where b: "toggle_startRecording morning (Spawned 4242) no_prefs desktop_world
      = (Inr (Spawned 4242), w1')"
    using example_start(2) by (metis prod.collapse)
  show ?thesis
    using start_then_stop_marker_absent [of morning pipeline_throws "Spawned 4242" no_prefs
        idle_world "Spawned 4242" w1 "Spawned 4242" w1'] a
      start_then_stop_marker_absent [of morning pipeline_throws "Spawned 4242" no_prefs
        desktop_world "Spawned 4242" w1 "Spawned 4242" w1'] b
    by blast
qed


section \<open>Paths: joining and resolving\<close>

lemma split_step_nonempty [simp]: "split_step c x r \<noteq> []"
  by (cases r) auto

lemma split_on_nonempty [simp]: "split_on c s \<noteq> []"
  by (cases s) auto

lemma split_on_sep: "split_on c (c # s) = [] # split_on c s"
  by (cases "split_on c s") (use split_on_nonempty [of c s] in auto)

lemma split_on_other: "x \<noteq> c \<Longrightarrow> split_on c (x # s) = (x # hd (split_on c s)) # tl (split_on c s)"
  by (cases "split_on c s") (use split_on_nonempty [of c s] in auto)

lemma split_on_no_sep: "c \<notin> set s \<Longrightarrow> split_on c s = [s]"
  by (induction s) (auto simp: split_on_other)

lemma split_on_append: "split_on c (a @ c # b) = split_on c a @ split_on c b"
proof (induction a)
  case Nil
  show ?case using split_on_sep [of c b] by simp
next
  case (Cons x a)
  show ?case
  proof (cases "x = c")
    case True
    then show ?thesis using Cons by (simp add: split_on_sep del: split_on.simps)
  next
    case False
    then show ?thesis using Cons split_on_nonempty [of c a]
      by (cases "split_on c a") (simp_all add: split_on_other del: split_on.simps)
  qed
qed

lemma split_on_free: "seg \<in> set (split_on c s) \<Longrightarrow> c \<notin> set seg"
proof (induction s arbitrary: seg)
  case Nil
  then show ?case by simp
next
  case (Cons x s)
  show ?case
  proof (cases "x = c")
    case True
    with Cons show ?thesis by (auto simp: split_on_sep simp del: split_on.simps)
  next
    case False
    obtain y ys where r: "split_on c s = y # ys"
      using split_on_nonempty [of c s] by (cases "split_on c s") auto
    with False Cons.prems have "seg = x # y \<or> seg \<in> set ys"
      by (auto simp: split_on_other simp del: split_on.simps)
    with Cons.IH r False show ?thesis by auto
  qed
qed

lemma split_join:
  "xs \<noteq> [] \<Longrightarrow> \<forall>x \<in> set xs. c \<notin> set x \<Longrightarrow> split_on c (join_with [c] xs) = xs"
proof (induction xs rule: induct_list012)
  case 1
  then show ?case by simp
next
  case (2 x)
  then show ?case by (simp add: split_on_no_sep)
next
  case (3 x y ys)
  then show ?case
    using split_on_append [of c x "join_with [c] (y # ys)"]
    by (simp add: split_on_no_sep del: split_on.simps)
qed


lemma join_with_hd:
  "xs \<noteq> [] \<Longrightarrow> hd xs \<noteq> [] \<Longrightarrow> join_with sep xs \<noteq> [] \<and> hd (join_with sep xs) = hd (hd xs)"
  by (induction xs rule: induct_list012) auto

lemma normalize_step_plain: "plain n \<Longrightarrow> normalize_step a res n = res @ [n]"
  by (simp add: normalize_step_def plain_def)

lemma normalize_all_plain:
  "\<forall>m \<in> set ms. plain m \<Longrightarrow> foldl (normalize_step a) res ms = res @ ms"
  by (induction ms arbitrary: res) (simp_all add: normalize_step_plain)

lemma normalize_step_subset:
  "set (normalize_step a res x) \<subseteq> set res \<union> {y. y = x \<and> x \<noteq> [] \<and> x \<noteq> ''.'' \<and> (a \<or> x \<noteq> ''..'')}"
  by (auto simp: normalize_step_def dest: in_set_butlastD)

lemma normalize_subset:
  "set (foldl (normalize_step a) res xs) \<subseteq>
     set res \<union> {x \<in> set xs. x \<noteq> [] \<and> x \<noteq> ''.'' \<and> (a \<or> x \<noteq> ''..'')}"
proof (induction xs arbitrary: res)
  case Nil
  show ?case by simp
next
  case (Cons x xs)
  show ?case
    using Cons.IH [of "normalize_step a res x"] normalize_step_subset [of a res x]
    by auto
qed

lemma normalizeString_segments:
  assumes "m \<in> set (normalizeString a p)"
  shows "m \<noteq> [] \<and> m \<noteq> ''.'' \<and> (a \<or> m \<noteq> ''..'') \<and> CHR ''/'' \<notin> set m"
proof -
  from assms normalize_subset [of a "[]" "split_on (CHR ''/'') p"]
  have "m \<in> set (split_on (CHR ''/'') p) \<and> m \<noteq> [] \<and> m \<noteq> ''.'' \<and> (a \<or> m \<noteq> ''..'')"
    unfolding normalizeString_def by auto
  then show ?thesis using split_on_free by blast
qed

lemma renormalize:
  "foldl (normalize_step a) res (foldl (normalize_step True) [] xs) =
   foldl (normalize_step a) res xs"
proof (induction xs rule: rev_induct)
  case Nil
  show ?case by simp
next
  case (snoc s xs)
  let ?M = "foldl (normalize_step True) [] xs"
  let ?R = "foldl (normalize_step a) res xs"
  have elems: "\<forall>m \<in> set ?M. m \<noteq> [] \<and> m \<noteq> ''.''"
    using normalize_subset [of True "[]" xs] by auto
  show ?case
  proof (cases "s = ''..'' \<and> ?M \<noteq> [] \<and> last ?M \<noteq> ''..''")
    case True
    then obtain M' t where M: "?M = M' @ [t]" and t: "t \<noteq> ''..''"
      by (metis append_butlast_last_id)
    with elems have t': "t \<noteq> []" "t \<noteq> ''.''" by auto
    have "foldl (normalize_step a) res ?M = foldl (normalize_step a) res M' @ [t]"
      using M t t' by (simp add: normalize_step_def)
    with snoc.IH have R: "?R = foldl (normalize_step a) res M' @ [t]" by simp
    have "normalize_step True ?M s = M'" using True M by (simp add: normalize_step_def)
    moreover have "normalize_step a ?R s = foldl (normalize_step a) res M'"
      using True R t by (simp add: normalize_step_def)
    ultimately show ?thesis by simp
  next
    case False
    show ?thesis
    proof (cases "s = [] \<or> s = ''.''")
      case True
      then have "normalize_step True ?M s = ?M" "normalize_step a ?R s = ?R"
        by (auto simp: normalize_step_def)
      then show ?thesis using snoc.IH by simp
    next
      case dots: False
      with False have "normalize_step True ?M s = ?M @ [s]"
        by (auto simp: normalize_step_def)
      then show ?thesis using snoc.IH by simp
    qed
  qed
qed

lemma free_hd: "c \<notin> set n \<Longrightarrow> n \<noteq> [] \<Longrightarrow> hd n \<noteq> c"
  by (cases n) auto

lemma free_last: "c \<notin> set n \<Longrightarrow> n \<noteq> [] \<Longrightarrow> last n \<noteq> c"
  using last_in_set [of n] by auto

lemma resolve_empty [simp]: "resolve wd [] = wd"
  by (simp add: resolve_def isAbsolute_def normalize_step_def)

lemma resolve_plain: "plain n \<Longrightarrow> resolve wd n = wd @ [n]"
proof -
  assume n: "plain n"
  then have "CHR ''/'' \<notin> set n" "n \<noteq> []" by (auto simp: plain_def)
  then have "\<not> isAbsolute n" "split_on (CHR ''/'') n = [n]"
    by (auto simp: isAbsolute_def split_on_no_sep free_hd)
  with n show ?thesis by (simp add: resolve_def normalize_step_plain)
qed

lemma path_join_plain: "plain n \<Longrightarrow> path_join [[], n] = n"
proof -
  assume n: "plain n"
  then have f: "CHR ''/'' \<notin> set n" "n \<noteq> []" by (auto simp: plain_def)
  then have "\<not> isAbsolute n" "split_on (CHR ''/'') n = [n]" "last n \<noteq> CHR ''/''"
    by (auto simp: isAbsolute_def split_on_no_sep free_hd free_last)
  with n f show ?thesis
    by (simp add: path_join_def path_normalize_def normalizeString_def normalize_step_plain Let_def)
qed


lemma resolve_path_join:
  assumes n: "plain n"
  shows "resolve wd (path_join [d, n]) = resolve wd d @ [n]"
proof (cases "d = []")
  case True
  with n show ?thesis by (simp add: path_join_plain resolve_plain)
next
  case False
  from n have nf: "CHR ''/'' \<notin> set n" "n \<noteq> []" by (auto simp: plain_def)
  let ?p = "d @ CHR ''/'' # n"
  let ?a = "isAbsolute d"
  let ?M = "normalizeString (\<not> ?a) d"
  let ?q = "(if ?a then ''/'' else []) @ join_with ''/'' (?M @ [n])"
  have abs: "isAbsolute ?p = ?a" using False by (simp add: isAbsolute_def)
  have lastp: "last ?p \<noteq> CHR ''/''" using nf by (simp add: free_last)
  have "split_on (CHR ''/'') ?p = split_on (CHR ''/'') d @ [n]"
    using nf by (simp add: split_on_append split_on_no_sep del: split_on.simps)
  then have norm: "normalizeString (\<not> ?a) ?p = ?M @ [n]"
    using n by (simp add: normalizeString_def normalize_step_plain)
  have segs: "\<forall>m \<in> set (?M @ [n]). CHR ''/'' \<notin> set m"
    using normalizeString_segments [of _ "\<not> ?a" d] nf by auto
  have hd_seg: "hd (?M @ [n]) \<noteq> []"
    using normalizeString_segments [of _ "\<not> ?a" d] nf by (cases ?M) auto
  have jn: "join_with ''/'' (?M @ [n]) \<noteq> []"
    and jh: "hd (join_with ''/'' (?M @ [n])) = hd (hd (?M @ [n]))"
    using join_with_hd [of "?M @ [n]" "''/''"] hd_seg by auto
  have pj: "path_join [d, n] = ?q"
    using False nf abs lastp norm jn
    by (simp add: path_join_def path_normalize_def Let_def)
  have sq: "split_on (CHR ''/'') (join_with ''/'' (?M @ [n])) = ?M @ [n]"
    using split_join [of "?M @ [n]" "CHR ''/''"] segs by simp
  show ?thesis
  proof (cases ?a)
    case True
    then have "isAbsolute ?q" by (simp add: isAbsolute_def)
    moreover have "split_on (CHR ''/'') ?q = [] # ?M @ [n]"
      using True sq by (simp add: split_on_sep del: split_on.simps)
    ultimately have r1: "resolve wd ?q = foldl (normalize_step False) [] (?M @ [n])"
      by (simp add: resolve_def normalize_step_def)
    have r2: "foldl (normalize_step False) [] (?M @ [n]) = foldl (normalize_step False) [] ?M @ [n]"
      using n by (simp add: normalize_step_plain)
    have "\<forall>m \<in> set ?M. plain m"
      using normalizeString_segments [of _ "\<not> ?a" d] True by (auto simp: plain_def)
    then have r3: "foldl (normalize_step False) [] ?M = ?M"
      using normalize_all_plain [of ?M False "[]"] by simp
    have r4: "?M = resolve wd d"
      using True by (simp add: resolve_def normalizeString_def)
    have "resolve wd ?q = resolve wd d @ [n]"
      using r1 r2 r3 r4 by (simp only:)
    then show ?thesis using pj by (simp only:)
  next
    case rel: False
    have "hd (hd (?M @ [n])) \<noteq> CHR ''/''"
      using segs hd_seg free_hd [of "CHR ''/''" "hd (?M @ [n])"] by (cases ?M) auto
    then have "\<not> isAbsolute ?q" using rel jh by (simp add: isAbsolute_def)
    then have r1: "resolve wd ?q = foldl (normalize_step False) wd (?M @ [n])"
      using rel sq by (simp add: resolve_def)
    have r2: "foldl (normalize_step False) wd (?M @ [n]) = foldl (normalize_step False) wd ?M @ [n]"
      using n by (simp add: normalize_step_plain)
    have r3: "foldl (normalize_step False) wd ?M =
        foldl (normalize_step False) wd (split_on (CHR ''/'') d)"
      using rel renormalize [of False wd "split_on (CHR ''/'') d"]
      by (simp add: normalizeString_def)
    have r4: "foldl (normalize_step False) wd (split_on (CHR ''/'') d) = resolve wd d"
      using rel by (simp add: resolve_def)
    have "resolve wd ?q = resolve wd d @ [n]"
      using r1 r2 r3 r4 by (simp only:)
    then show ?thesis using pj by (simp only:)
  qed
qed


section \<open>A launch that fails\<close>

lemma plain_names: "plain ''raycast-ffmpeg.pid''" "plain ''ffmpeg-recording.log''" "plain ''Videos''"
  by (simp_all add: plain_def)

lemma marker_resolved: "marker w = resolve (cwd w) (tmpdir w) @ [''raycast-ffmpeg.pid'']"
  by (simp add: marker_def PID_FILE_def resolve_path_join plain_names)

lemma LOG_resolved:
  "resolve (cwd w) (LOG_FILE w) = resolve (cwd w) (tmpdir w) @ [''ffmpeg-recording.log'']"
  by (simp add: LOG_FILE_def resolve_path_join plain_names)

lemma LOG_not_marker: "resolve (cwd w) (LOG_FILE w) \<noteq> marker w"
  by (simp add: marker_resolved LOG_resolved)

lemma trim_undefined: "trim ''undefined'' = ''undefined''"
  by (simp add: trim_def is_space_def)

lemma parse_pid_undefined: "parse_pid ''undefined'' = None"
  by (simp add: parse_pid_def is_digit_def)

lemma example_failed_launch:
  "fst (toggle_main morning no_ffmpeg no_prefs desktop_world) = Inr HudStarted"
  "node_at (snd (toggle_main morning no_ffmpeg no_prefs desktop_world)) (PID_FILE desktop_world)
     = Some (File ''undefined'')"
  "node_at (snd (toggle_main morning no_ffmpeg no_prefs desktop_world))
     (toggle_LOG_FILE desktop_world) = Some (File [])"
  by (simp_all add: toggle_main_def isRecording_def toggle_startRecording_def or_default_def
      Let_def no_ffmpeg_def io_defs path_defs example_defs)

lemma example_failed_launch_view:
  "node_at (snd (startRecording morning pipeline_throws no_ffmpeg no_prefs idle_world))
     (PID_FILE idle_world) = Some (File ''undefined'')"
  "fst (handleStart morning pipeline_throws no_ffmpeg no_prefs {} idle_world)
     = Inr ToastFailedToStart"
  "\<not> existsSync (PID_FILE idle_world)
      (snd (handleStart morning pipeline_throws no_ffmpeg no_prefs {} idle_world))"
  by (simp_all add: handleStart_def checkIsRecording_def on_spawn_error_def
      startRecording_def getOutputDir_def detectDisplay_def detectResolution_def
      or_default_def Let_def pipeline_throws_def no_ffmpeg_def trim_undefined
      parse_pid_undefined kill_succeeds_def io_defs path_defs example_defs
      split: prod.splits sum.splits)

text \<open>
  A recorder that is launched and is still there after the wait gives the toast
  \<open>Recording started\<close>; one that has exited during the wait gives \<open>Failed to start\<close>.
\<close>

lemma example_dec: "dec 4242 = ''4242''"
  by code_simp

lemma example_recorder_exits:
  "fst (handleStart morning pipeline_throws (Spawned 4242) no_prefs {} idle_world)
     = Inr ToastStarted"
  "fst (handleStart morning pipeline_throws (Spawned 4242) no_prefs {4242} idle_world)
     = Inr ToastFailedToStart"
  by (simp_all add: handleStart_def checkIsRecording_def on_spawn_error_def
      startRecording_def getOutputDir_def detectDisplay_def detectResolution_def
      or_default_def Let_def pipeline_throws_def example_trim example_dec
      example_parse_pid kill_succeeds_def recording_name_def io_defs path_defs example_defs
      split: prod.splits sum.splits)

text \<open>
  Claim C2. If the recorder subprocess fails to spawn in \<open>startRecording\<close>, the error is
  appended to the log file, the failure is surfaced to the caller as an error signal, and no
  marker file is written. The code departs from this in both commands. With no \<open>ffmpeg\<close>
  to launch, \<open>main\<close> of the toggle command answers \<open>Recording started\<close>, leaves the marker
  file holding the text \<open>undefined\<close> and leaves its log file empty. In the status view
  \<open>startRecording\<close> returns normally and the marker file holds \<open>undefined\<close>; only the
  status check that \<open>handleStart\<close> runs afterwards removes the marker, and \<open>handleStart\<close>
  answers \<open>Failed to start\<close>.
\<close>

theorem spawn_failure_not_surfaced:
  "fst (toggle_main morning no_ffmpeg no_prefs desktop_world) = Inr HudStarted \<and>
   node_at (snd (toggle_main morning no_ffmpeg no_prefs desktop_world)) (PID_FILE desktop_world)
     = Some (File ''undefined'') \<and>
   node_at (snd (toggle_main morning no_ffmpeg no_prefs desktop_world))
     (toggle_LOG_FILE desktop_world) = Some (File []) \<and>
   fst (startRecording morning pipeline_throws no_ffmpeg no_prefs idle_world) = Inr no_ffmpeg \<and>
   node_at (snd (startRecording morning pipeline_throws no_ffmpeg no_prefs idle_world))
     (PID_FILE idle_world) = Some (File ''undefined'') \<and>
   fst (handleStart morning pipeline_throws no_ffmpeg no_prefs {} idle_world)
     = Inr ToastFailedToStart \<and>
   \<not> existsSync (PID_FILE idle_world)
      (snd (handleStart morning pipeline_throws no_ffmpeg no_prefs {} idle_world))"
  by (simp add: example_failed_launch example_failed_launch_view example_start(3))

section \<open>The log tail\<close>

lemma readLogTail_absent:
  "node_at w (LOG_FILE w) = None \<Longrightarrow>
   readLogTail w = (Inr ''_No log yet. Start a recording to see ffmpeg output here._'', w)"
  by (simp add: readLogTail_def try_io_def existsSync_def return_io_def)

lemma readLogTail_unreadable:
  "node_at w (LOG_FILE w) = Some NoAccess \<or> node_at w (LOG_FILE w) = Some Dir \<Longrightarrow>
   readLogTail w = (Inr ''_Could not read log_'', w)"
  by (auto simp: readLogTail_def try_io_def existsSync_def return_io_def bind_io_def readFileSync_def)

lemma readLogTail_File:
  "node_at w (LOG_FILE w) = Some (File c) \<Longrightarrow>
   readLogTail w =
     (Inr (if trim c = [] then ''_Log is empty_''
           else join_with [NL] (slice_last 25 (split_on NL (trim c)))), w)"
  by (simp add: readLogTail_def try_io_def existsSync_def return_io_def bind_io_def
      readFileSync_def Let_def)

text \<open>
  Claim C7. \<open>readLogTail\<close> returns a string in every world, changes nothing and never throws.
  Without a log file the string is the placeholder \<open>_No log yet. Start a recording to see
  ffmpeg output here._\<close>; for a log file that is empty or holds only white space it is
  \<open>_Log is empty_\<close>; for a log that cannot be read (no access, or a directory in its
  place) it is \<open>_Could not read log_\<close>.
\<close>

theorem readLogTail_never_raises:
  "(\<exists>s. readLogTail w = (Inr s, w)) \<and>
   (node_at w (LOG_FILE w) = None \<longrightarrow>
      readLogTail w = (Inr ''_No log yet. Start a recording to see ffmpeg output here._'', w)) \<and>
   (\<forall>c. node_at w (LOG_FILE w) = Some (File c) \<and> trim c = [] \<longrightarrow>
      readLogTail w = (Inr ''_Log is empty_'', w)) \<and>
   (node_at w (LOG_FILE w) = Some NoAccess \<or> node_at w (LOG_FILE w) = Some Dir \<longrightarrow>
      readLogTail w = (Inr ''_Could not read log_'', w))"
proof -
  have "\<exists>s. readLogTail w = (Inr s, w)"
  proof (cases "node_at w (LOG_FILE w)")
    case None
    then show ?thesis by (simp add: readLogTail_absent)
  next
    case (Some n)
    then show ?thesis
      by (cases n) (simp_all add: readLogTail_File readLogTail_unreadable)
  qed
  then show ?thesis
    using readLogTail_absent [of w] readLogTail_unreadable [of w] readLogTail_File [of w]
    by auto
qed

lemma trim_Nil [simp]: "trim [] = []"
  by (simp add: trim_def)

text \<open>
  Claim C6, as amended. The lines of a log are those of its content after \<open>trim\<close> has
  removed the white space at both ends. When there are more than 25 of them,
  \<open>readLogTail\<close> returns exactly the last 25, in their order, joined by line feeds.
\<close>

theorem readLogTail_last_25:
  assumes "node_at w (LOG_FILE w) = Some (File c)"
    and "25 < length (split_on NL (trim c))"
  shows "\<exists>earlier tail. split_on NL (trim c) = earlier @ tail \<and> length tail = 25 \<and>
           readLogTail w = (Inr (join_with [NL] tail), w) \<and>
           split_on NL (join_with [NL] tail) = tail"
proof -
  let ?ls = "split_on NL (trim c)"
  let ?tail = "drop (length ?ls - 25) ?ls"
  have ne: "trim c \<noteq> []" using assms(2) by auto
  have "\<forall>x \<in> set ?tail. NL \<notin> set x"
    using split_on_free [of _ NL "trim c"] by (auto dest: in_set_dropD)
  moreover have len: "length ?tail = 25" using assms(2) by simp
  ultimately have "split_on NL (join_with [NL] ?tail) = ?tail"
    using split_join [of ?tail NL] by auto
  moreover have "readLogTail w = (Inr (join_with [NL] ?tail), w)"
    using assms(1) ne by (simp add: readLogTail_File slice_last_def)
  moreover have "?ls = take (length ?ls - 25) ?ls @ ?tail" by simp
  ultimately show ?thesis using len by blast
qed


lemma example_LOG_FILE:
  "tmpdir w = ''/tmp'' \<Longrightarrow> resolve wd (LOG_FILE w) = [''tmp'', ''ffmpeg-recording.log'']"
  by (simp add: path_defs Let_def)

lemma example_log_node:
  "node_at idle_world (LOG_FILE idle_world) = None"
  "node_at (with_log n) (LOG_FILE (with_log n)) = Some n"
  by (simp_all add: node_at_def Let_def example_LOG_FILE with_log_def)
     (simp add: idle_world_def)

lemma example_alphabet:
  "trim alphabet_log = letter_lines ''abcdefghijklmnopqrstuvwxyz''"
  "split_on NL (letter_lines ''abcdefghijklmnopqrstuvwxyz'') =
     [''a''] @ map (\<lambda>ch. [ch]) ''bcdefghijklmnopqrstuvwxyz''"
  by (simp_all add: alphabet_log_def letter_lines_def trim_def is_space_def NL_def)

theorem readLogTail_never_raises_witness:
  "readLogTail idle_world =
     (Inr ''_No log yet. Start a recording to see ffmpeg output here._'', idle_world) \<and>
   readLogTail (with_log (File [NL])) = (Inr ''_Log is empty_'', with_log (File [NL])) \<and>
   readLogTail (with_log NoAccess) = (Inr ''_Could not read log_'', with_log NoAccess)"
proof -
  have "trim [NL] = []" by (simp add: trim_def is_space_def NL_def)
  then show ?thesis
    using readLogTail_never_raises [of idle_world]
      readLogTail_never_raises [of "with_log (File [NL])"]
      readLogTail_never_raises [of "with_log NoAccess"]
    by (simp add: example_log_node)
qed

theorem readLogTail_last_25_witness:
  "\<exists>earlier tail. split_on NL (trim alphabet_log) = earlier @ tail \<and> length tail = 25 \<and>
     readLogTail (with_log (File alphabet_log)) =
       (Inr (join_with [NL] tail), with_log (File alphabet_log)) \<and>
     split_on NL (join_with [NL] tail) = tail"
  using readLogTail_last_25 [of "with_log (File alphabet_log)" alphabet_log]
  by (simp add: example_log_node example_alphabet)

theorem readLogTail_blank_tail_counterexample:
  "node_at (with_log (File alphabet_log)) (LOG_FILE (with_log (File alphabet_log))) =
     Some (File (letter_lines ''abcdefghijklmnopqrstuvwxyz'' @ [NL, NL, NL])) \<and>
   fst (readLogTail (with_log (File alphabet_log))) =
     Inr (letter_lines ''bcdefghijklmnopqrstuvwxyz'') \<and>
   fst (readLogTail (with_log (File alphabet_log))) \<noteq>
     Inr (letter_lines ''defghijklmnopqrstuvwxyz'' @ [NL, NL])"
proof -
  have "fst (readLogTail (with_log (File alphabet_log))) =
      Inr (letter_lines ''bcdefghijklmnopqrstuvwxyz'')"
    by (simp add: readLogTail_File example_log_node example_alphabet slice_last_def)
       (simp add: letter_lines_def)
  moreover have "letter_lines ''bcdefghijklmnopqrstuvwxyz'' \<noteq>
      letter_lines ''defghijklmnopqrstuvwxyz'' @ [NL, NL]"
    by (simp add: letter_lines_def)
  ultimately show ?thesis by (simp add: example_log_node alphabet_log_def)
qed

section \<open>The screen resolution\<close>

text \<open>
  Claim C9, as amended. \<open>detectResolution\<close> returns a string for every behaviour of the
  display pipeline, changes nothing and never throws. When \<open>execSync\<close> throws, and when
  the output is empty or only white space, the string is \<open>1920x1080\<close>. Any other output is
  returned with the white space at its ends removed, whether or not it reads as a resolution.
\<close>

theorem detectResolution_never_raises:
  "(\<exists>s. detectResolution xd display w = (Inr s, w)) \<and>
   (\<forall>e. xd display = Inl e \<longrightarrow> detectResolution xd display w = (Inr ''1920x1080'', w)) \<and>
   (\<forall>out. xd display = Inr out \<and> trim out = [] \<longrightarrow>
      detectResolution xd display w = (Inr ''1920x1080'', w)) \<and>
   (\<forall>out. xd display = Inr out \<and> trim out \<noteq> [] \<longrightarrow>
      detectResolution xd display w = (Inr (trim out), w))"
  by (simp add: detectResolution_returns or_default_def)

theorem detectResolution_never_raises_witness:
  "detectResolution pipeline_throws '':0'' idle_world = (Inr ''1920x1080'', idle_world) \<and>
   detectResolution pipeline_silent '':0'' idle_world = (Inr ''1920x1080'', idle_world) \<and>
   detectResolution pipeline_prints '':0'' idle_world = (Inr ''1280x720'', idle_world)"
proof -
  have "trim [NL] = []" "trim (''1280x720'' @ [NL]) = ''1280x720''"
    by (simp_all add: trim_def is_space_def NL_def)
  then show ?thesis
    using detectResolution_never_raises [of pipeline_throws "'':0''" idle_world]
      detectResolution_never_raises [of pipeline_silent "'':0''" idle_world]
      detectResolution_never_raises [of pipeline_prints "'':0''" idle_world]
    by (simp add: pipeline_throws_def pipeline_silent_def pipeline_prints_def)
qed

theorem detectResolution_unparsable_counterexample:
  "detectResolution pipeline_garbage '':0'' idle_world = (Inr ''garbage'', idle_world) \<and>
   ''garbage'' \<noteq> ''1920x1080''"
  by (simp add: detectResolution_returns or_default_def pipeline_garbage_def trim_def
      is_space_def NL_def)

section \<open>The output directory\<close>

lemma dirs_down_snoc: "dirs_down pre (ss @ [s]) = dirs_down pre ss @ [pre @ ss @ [s]]"
  by (induction ss arbitrary: pre) auto

lemma dirs_down_self: "ss \<noteq> [] \<Longrightarrow> pre @ ss \<in> set (dirs_down pre ss)"
  by (induction ss arbitrary: pre rule: rev_induct) (auto simp: dirs_down_snoc)

lemma dirs_down_longer: "p \<in> set (dirs_down pre ss) \<Longrightarrow> length pre < length p"
proof (induction ss arbitrary: pre)
  case Nil
  then show ?case by simp
next
  case (Cons s ss)
  from Cons.prems have "p = pre @ [s] \<or> p \<in> set (dirs_down (pre @ [s]) ss)" by simp
  then show ?case using Cons.IH [of "pre @ [s]"] by auto
qed

lemma mkdirs_Inr:
  "mkdirs pre ss w = (Inr u, w') \<Longrightarrow>
     files w' = (\<lambda>p. if p \<in> set (dirs_down pre ss) then Some Dir else files w p)"
proof (induction ss arbitrary: pre w)
  case Nil
  then show ?case by auto
next
  case (Cons s ss)
  let ?q = "pre @ [s]"
  show ?case
  proof (cases "files w ?q")
    case None
    with Cons.prems
    have "mkdirs ?q ss (w\<lparr>files := (files w)(?q \<mapsto> Dir)\<rparr>) = (Inr u, w')" by simp
    from Cons.IH [OF this] show ?thesis by (auto simp: fun_eq_iff)
  next
    case (Some n)
    with Cons.prems have n: "n = Dir" and "mkdirs ?q ss w = (Inr u, w')"
      by (cases n; simp)+
    from Cons.IH [OF this(2)] Some n show ?thesis by (auto simp: fun_eq_iff)
  qed
qed

lemma mkdirs_Inl:
  "mkdirs pre ss w = (Inl e, w') \<Longrightarrow>
     e = ENOTDIR \<and> (\<exists>p \<in> set (dirs_down pre ss). files w p \<noteq> None \<and> files w p \<noteq> Some Dir)"
proof (induction ss arbitrary: pre w)
  case Nil
  then show ?case by auto
next
  case (Cons s ss)
  let ?q = "pre @ [s]"
  show ?case
  proof (cases "files w ?q")
    case None
    with Cons.prems
    have "mkdirs ?q ss (w\<lparr>files := (files w)(?q \<mapsto> Dir)\<rparr>) = (Inl e, w')" by simp
    from Cons.IH [OF this] obtain p where
      p: "e = ENOTDIR" "p \<in> set (dirs_down ?q ss)"
        "((files w)(?q \<mapsto> Dir)) p \<noteq> None" "((files w)(?q \<mapsto> Dir)) p \<noteq> Some Dir"
      by auto
    then have "p \<noteq> ?q" by auto
    with p show ?thesis by auto
  next
    case (Some n)
    show ?thesis
    proof (cases n)
      case Dir
      with Some Cons.prems have "mkdirs ?q ss w = (Inl e, w')" by simp
      from Cons.IH [OF this] show ?thesis by auto
    qed (use Some Cons.prems in auto)
  qed
qed

lemma mkdirs_returns:
  "(\<exists>w'. mkdirs pre ss w = (Inr (), w')) \<longleftrightarrow>
   (\<forall>p \<in> set (dirs_down pre ss). files w p = None \<or> files w p = Some Dir)"
proof (induction ss arbitrary: pre w)
  case Nil
  show ?case by simp
next
  case (Cons s ss)
  let ?q = "pre @ [s]"
  have other: "p \<noteq> ?q" if "p \<in> set (dirs_down ?q ss)" for p
    using dirs_down_longer [OF that] by auto
  show ?case
  proof (cases "files w ?q")
    case None
    have "(\<forall>p \<in> set (dirs_down ?q ss).
             ((files w)(?q \<mapsto> Dir)) p = None \<or> ((files w)(?q \<mapsto> Dir)) p = Some Dir) \<longleftrightarrow>
          (\<forall>p \<in> set (dirs_down ?q ss). files w p = None \<or> files w p = Some Dir)"
      using other by auto
    with None Cons.IH [of ?q "w\<lparr>files := (files w)(?q \<mapsto> Dir)\<rparr>"] show ?thesis by simp
  next
    case (Some n)
    with Cons.IH [of ?q w] show ?thesis by (cases n) auto
  qed
qed


lemma mkdirs_world: "mkdirs pre ss w = (x, w') \<Longrightarrow> w' = w\<lparr>files := files w'\<rparr>"
proof (induction ss arbitrary: pre w)
  case Nil
  then show ?case by auto
next
  case (Cons s ss)
  show ?case
  proof (cases "files w (pre @ [s])")
    case None
    with Cons.prems
    have "mkdirs (pre @ [s]) ss (w\<lparr>files := (files w)(pre @ [s] \<mapsto> Dir)\<rparr>) = (x, w')"
      by simp
    from Cons.IH [OF this] show ?thesis by simp
  next
    case (Some n)
    with Cons.prems Cons.IH [of "pre @ [s]" w] show ?thesis
      by (cases n) auto
  qed
qed

lemma getOutputDir_exists:
  "existsSync (chosen_dir prefs w) w \<Longrightarrow> getOutputDir prefs w = (Inr (chosen_dir prefs w), w)"
  by (simp add: getOutputDir_def chosen_dir_def return_io_def Let_def)

lemma getOutputDir_creates:
  assumes "\<not> existsSync (chosen_dir prefs w) w"
    and "\<forall>p \<in> set (dirs_down [] (resolve (cwd w) (chosen_dir prefs w))).
           files w p = None \<or> files w p = Some Dir"
  shows "getOutputDir prefs w =
     (Inr (chosen_dir prefs w),
      w\<lparr>files := (\<lambda>p. if p \<in> set (dirs_down [] (resolve (cwd w) (chosen_dir prefs w)))
                         then Some Dir else files w p)\<rparr>)"
proof -
  let ?r = "resolve (cwd w) (chosen_dir prefs w)"
  from assms(2) obtain w' where m: "mkdirs [] ?r w = (Inr (), w')"
    using mkdirs_returns [of "[]" ?r w] by blast
  from mkdirs_Inr [OF m] mkdirs_world [OF m]
  have "w' = w\<lparr>files := (\<lambda>p. if p \<in> set (dirs_down [] ?r) then Some Dir else files w p)\<rparr>"
    by simp
  with m assms(1) show ?thesis
    by (simp add: getOutputDir_def chosen_dir_def Let_def bind_io_def return_io_def
        mkdirSync_recursive_def)
qed

lemma getOutputDir_blocked:
  assumes "\<not> existsSync (chosen_dir prefs w) w"
    and "\<not> (\<forall>p \<in> set (dirs_down [] (resolve (cwd w) (chosen_dir prefs w))).
           files w p = None \<or> files w p = Some Dir)"
  shows "\<exists>w'. getOutputDir prefs w = (Inl ENOTDIR, w')"
proof -
  let ?r = "resolve (cwd w) (chosen_dir prefs w)"
  obtain x w' where m: "mkdirs [] ?r w = (x, w')" by (cases "mkdirs [] ?r w")
  have "x = Inl ENOTDIR"
  proof (cases x)
    case (Inl e)
    with m mkdirs_Inl [of "[]" ?r w e w'] show ?thesis by simp
  next
    case (Inr u)
    with m assms(2) mkdirs_returns [of "[]" ?r w] show ?thesis by auto
  qed
  with m assms(1) show ?thesis
    by (simp add: getOutputDir_def chosen_dir_def Let_def bind_io_def mkdirSync_recursive_def)
qed

lemma dropWhile_all: "list_all P s \<Longrightarrow> dropWhile P s = []"
  by (induction s) auto

lemma trim_blank: "list_all is_space s \<Longrightarrow> trim s = []"
  by (simp add: trim_def dropWhile_all)

lemma chosen_dir_unset:
  "outputDir prefs = None \<or> (\<exists>s. outputDir prefs = Some s \<and> list_all is_space s) \<Longrightarrow>
   chosen_dir prefs w = path_join [homedir w, ''Videos'']"
  by (auto simp: chosen_dir_def or_default_def trim_blank)

text \<open>
  Claim C10. When the \<open>outputDir\<close> preference is missing, empty or white space only,
  \<open>getOutputDir\<close> settles on the \<open>Videos\<close> directory under the home directory. If that
  exists it is returned and nothing changes. If it does not exist and no node on the way
  down to it is something other than a directory, it is returned and afterwards every node
  on the way down, the directory itself included, is a directory, all else unchanged. If a
  node on the way is not a directory, \<open>mkdirSync\<close> throws \<open>ENOTDIR\<close>.
\<close>

theorem getOutputDir_unset_falls_back:
  assumes "outputDir prefs = None \<or> (\<exists>s. outputDir prefs = Some s \<and> list_all is_space s)"
  shows "(let dir = path_join [homedir w, ''Videos''];
              r = resolve (cwd w) (homedir w) @ [''Videos''];
              unblocked = (\<forall>p \<in> set (dirs_down [] r). files w p = None \<or> files w p = Some Dir)
          in resolve (cwd w) dir = r \<and> r \<in> set (dirs_down [] r) \<and>
             (existsSync dir w \<longrightarrow> getOutputDir prefs w = (Inr dir, w)) \<and>
             (\<not> existsSync dir w \<and> unblocked \<longrightarrow>
                getOutputDir prefs w =
                  (Inr dir, w\<lparr>files := (\<lambda>p. if p \<in> set (dirs_down [] r) then Some Dir
                                              else files w p)\<rparr>)) \<and>
             (\<not> existsSync dir w \<and> \<not> unblocked \<longrightarrow>
                (\<exists>w'. getOutputDir prefs w = (Inl ENOTDIR, w'))))"
proof -
  let ?dir = "path_join [homedir w, ''Videos'']"
  let ?r = "resolve (cwd w) (homedir w) @ [''Videos'']"
  have c: "chosen_dir prefs w = ?dir" using assms by (rule chosen_dir_unset)
  have r: "resolve (cwd w) ?dir = ?r" by (simp add: resolve_path_join plain_def)
  have "?r \<in> set (dirs_down [] ?r)" using dirs_down_self [of ?r "[]"] by simp
  then show ?thesis
    using getOutputDir_exists [of prefs w] getOutputDir_creates [of prefs w]
      getOutputDir_blocked [of prefs w] r
    unfolding c Let_def by auto
qed

theorem getOutputDir_unset_falls_back_witness:
  "getOutputDir blank_prefs idle_world =
     (Inr ''/home/u/Videos'',
      idle_world\<lparr>files := (\<lambda>p. if p \<in> set (dirs_down [] [''home'', ''u'', ''Videos''])
                                  then Some Dir else files idle_world p)\<rparr>) \<and>
   getOutputDir blank_prefs videos_world = (Inr ''/home/u/Videos'', videos_world) \<and>
   (\<exists>w'. getOutputDir no_prefs blocked_world = (Inl ENOTDIR, w'))"
proof -
  have p: "list_all is_space ''  ''" by (simp add: is_space_def)
  have d: "path_join [homedir idle_world, ''Videos''] = ''/home/u/Videos''"
    "path_join [homedir videos_world, ''Videos''] = ''/home/u/Videos''"
    "path_join [homedir blocked_world, ''Videos''] = ''/home/u/Videos''"
    by (simp_all add: path_defs idle_world_def videos_world_def blocked_world_def Let_def)
  have r: "resolve (cwd idle_world) (homedir idle_world) @ [''Videos''] = [''home'', ''u'', ''Videos'']"
    "resolve (cwd videos_world) (homedir videos_world) @ [''Videos''] = [''home'', ''u'', ''Videos'']"
    "resolve (cwd blocked_world) (homedir blocked_world) @ [''Videos''] = [''home'', ''u'', ''Videos'']"
    by (simp_all add: path_defs idle_world_def videos_world_def blocked_world_def)
  have e: "\<not> existsSync ''/home/u/Videos'' idle_world"
    "existsSync ''/home/u/Videos'' videos_world"
    "\<not> existsSync ''/home/u/Videos'' blocked_world"
    by (simp_all add: existsSync_def node_at_def path_defs idle_world_def videos_world_def
        blocked_world_def)
  have u: "\<forall>p \<in> set (dirs_down [] [''home'', ''u'', ''Videos'']).
      files idle_world p = None \<or> files idle_world p = Some Dir"
    "\<not> (\<forall>p \<in> set (dirs_down [] [''home'', ''u'', ''Videos'']).
      files blocked_world p = None \<or> files blocked_world p = Some Dir)"
    by (simp_all add: idle_world_def blocked_world_def)
  have "getOutputDir blank_prefs idle_world =
     (Inr ''/home/u/Videos'',
      idle_world\<lparr>files := (\<lambda>p. if p \<in> set (dirs_down [] [''home'', ''u'', ''Videos''])
                                  then Some Dir else files idle_world p)\<rparr>)"
    using getOutputDir_unset_falls_back [of blank_prefs idle_world] p e(1) u(1)
    unfolding Let_def d r
    by (simp add: blank_prefs_def no_prefs_def)
  moreover have "getOutputDir blank_prefs videos_world = (Inr ''/home/u/Videos'', videos_world)"
    using getOutputDir_unset_falls_back [of blank_prefs videos_world] p e(2)
    unfolding Let_def d r
    by (simp add: blank_prefs_def no_prefs_def)
  moreover have "\<exists>w'. getOutputDir no_prefs blocked_world = (Inl ENOTDIR, w')"
  proof -
    have h: "outputDir no_prefs = None \<or>
        (\<exists>s. outputDir no_prefs = Some s \<and> list_all is_space s)"
      by (simp add: no_prefs_def)
    from getOutputDir_unset_falls_back [OF h, of blocked_world, unfolded Let_def d r] e(3) u(2)
    show ?thesis by blast
  qed
  ultimately show ?thesis by blast
qed

section \<open>Output paths\<close>

lemma of_char_digit: "k < 10 \<Longrightarrow> (of_char (digit_char k) :: nat) = 48 + k"
  by (simp add: digit_char_def)

lemma is_digit_digit_char: "k < 10 \<Longrightarrow> is_digit (digit_char k)"
  by (simp add: is_digit_def of_char_digit)

lemma digits_value_snoc:
  "digits_value (s @ [c]) = 10 * digits_value s + ((of_char c :: nat) - 48)"
  by (simp add: digits_value_def)

lemma digits_value_dec: "digits_value (dec n) = n"
proof (induction n rule: dec.induct)
  case (1 n)
  show ?case
  proof (cases "n < 10")
    case True
    then show ?thesis by (simp add: dec.simps [of n] digits_value_def of_char_digit)
  next
    case False
    with 1 show ?thesis
      by (simp add: dec.simps [of n] digits_value_snoc of_char_digit)
  qed
qed

lemma digits_value_zeros: "digits_value (replicate k (CHR ''0'') @ s) = digits_value s"
proof -
  have "foldl (\<lambda>a c. 10 * a + ((of_char c :: nat) - 48)) 0 (replicate k (CHR ''0'')) = 0"
    by (induction k) simp_all
  then show ?thesis by (simp add: digits_value_def)
qed

lemma digits_value_padStart [simp]: "digits_value (padStart k (dec n)) = n"
  by (simp add: padStart_def digits_value_zeros digits_value_dec)

lemma padStart_dec_inj: "padStart k (dec a) = padStart k (dec b) \<Longrightarrow> a = b"
  using digits_value_padStart by metis

lemma dec_digits: "list_all is_digit (dec n)"
proof (induction n rule: dec.induct)
  case (1 n)
  then show ?case
    by (cases "n < 10") (simp_all add: dec.simps [of n] is_digit_digit_char)
qed

lemma length_dec: "n < 10 ^ k \<Longrightarrow> 0 < k \<Longrightarrow> length (dec n) \<le> k"
proof (induction n arbitrary: k rule: dec.induct)
  case (1 n)
  show ?case
  proof (cases "n < 10")
    case True
    with 1 show ?thesis by (simp add: dec.simps [of n])
  next
    case False
    with "1.prems" have k: "1 < k" by (cases "k = 1") auto
    then obtain j where j: "k = Suc j" "0 < j" by (cases k) auto
    with "1.prems" have "n div 10 < 10 ^ j" by (simp add: less_mult_imp_div_less mult.commute)
    with 1 False j have "length (dec (n div 10)) \<le> j" by simp
    with False j show ?thesis by (simp add: dec.simps [of n])
  qed
qed

lemma length_padStart: "length s \<le> k \<Longrightarrow> length (padStart k s) = k"
  by (simp add: padStart_def)

lemma length_pad:
  "n < 100 \<Longrightarrow> length (padStart 2 (dec n)) = 2"
  "n < 1000 \<Longrightarrow> length (padStart 3 (dec n)) = 3"
  "n < 10000 \<Longrightarrow> length (padStart 4 (dec n)) = 4"
  using length_dec [of n 2] length_dec [of n 3] length_dec [of n 4]
  by (simp_all add: length_padStart)

lemma padStart_digits: "list_all is_digit (padStart k (dec n))"
  using dec_digits [of n] by (auto simp: padStart_def list_all_iff is_digit_def)


lemma dashed_digits: "list_all is_digit s \<Longrightarrow> map dashed s = s"
  by (induction s) (auto simp: dashed_def is_digit_def)

lemma dashed_pad [simp]: "map dashed (padStart k (dec n)) = padStart k (dec n)"
  by (simp add: dashed_digits padStart_digits)

lemma timestamp_fields:
  assumes "valid_Date d" and "0 \<le> utc_year d" and "utc_year d \<le> 9999"
  shows "timestamp d =
     padStart 4 (dec (nat (utc_year d))) @ ''-'' @ padStart 2 (dec (utc_month d)) @ ''-'' @
     padStart 2 (dec (utc_day d)) @ ''T'' @ padStart 2 (dec (utc_hours d)) @ ''-'' @
     padStart 2 (dec (utc_minutes d)) @ ''-'' @ padStart 2 (dec (utc_seconds d))"
proof -
  from assms have l:
    "length (padStart 4 (dec (nat (utc_year d)))) = 4"
    "length (padStart 2 (dec (utc_month d))) = 2"
    "length (padStart 2 (dec (utc_day d))) = 2"
    "length (padStart 2 (dec (utc_hours d))) = 2"
    "length (padStart 2 (dec (utc_minutes d))) = 2"
    "length (padStart 2 (dec (utc_seconds d))) = 2"
    by (simp_all add: valid_Date_def length_pad)
  show ?thesis
    using assms(2,3) l
    by (simp add: timestamp_def toISOString_def iso_year_def dashed_def [of "CHR ''-''"]
        dashed_def [of "CHR ''T''"] dashed_def [of "CHR '':''"])
qed

lemma timestamp_inj:
  assumes "valid_Date a" "0 \<le> utc_year a" "utc_year a \<le> 9999"
    and "valid_Date b" "0 \<le> utc_year b" "utc_year b \<le> 9999"
    and "timestamp a = timestamp b"
  shows "utc_year a = utc_year b \<and> utc_month a = utc_month b \<and> utc_day a = utc_day b \<and>
         utc_hours a = utc_hours b \<and> utc_minutes a = utc_minutes b \<and>
         utc_seconds a = utc_seconds b"
proof -
  from assms(1-3) have la:
    "length (padStart 4 (dec (nat (utc_year a)))) = 4"
    "length (padStart 2 (dec (utc_month a))) = 2"
    "length (padStart 2 (dec (utc_day a))) = 2"
    "length (padStart 2 (dec (utc_hours a))) = 2"
    "length (padStart 2 (dec (utc_minutes a))) = 2"
    by (simp_all add: valid_Date_def length_pad)
  from assms(4-6) have lb:
    "length (padStart 4 (dec (nat (utc_year b)))) = 4"
    "length (padStart 2 (dec (utc_month b))) = 2"
    "length (padStart 2 (dec (utc_day b))) = 2"
    "length (padStart 2 (dec (utc_hours b))) = 2"
    "length (padStart 2 (dec (utc_minutes b))) = 2"
    by (simp_all add: valid_Date_def length_pad)
  from assms(7) have
    "padStart 4 (dec (nat (utc_year a))) = padStart 4 (dec (nat (utc_year b))) \<and>
     padStart 2 (dec (utc_month a)) = padStart 2 (dec (utc_month b)) \<and>
     padStart 2 (dec (utc_day a)) = padStart 2 (dec (utc_day b)) \<and>
     padStart 2 (dec (utc_hours a)) = padStart 2 (dec (utc_hours b)) \<and>
     padStart 2 (dec (utc_minutes a)) = padStart 2 (dec (utc_minutes b)) \<and>
     padStart 2 (dec (utc_seconds a)) = padStart 2 (dec (utc_seconds b))"
    unfolding timestamp_fields [OF assms(1-3)] timestamp_fields [OF assms(4-6)]
    using la lb by simp
  then have "nat (utc_year a) = nat (utc_year b)" and rest: "utc_month a = utc_month b \<and> utc_day a = utc_day b \<and>
         utc_hours a = utc_hours b \<and> utc_minutes a = utc_minutes b \<and>
         utc_seconds a = utc_seconds b"
    using padStart_dec_inj by blast+
  with assms(2,5) show ?thesis by simp
qed

lemma same_second_close:
  assumes "valid_Date a" "valid_Date b"
    and "utc_year a = utc_year b \<and> utc_month a = utc_month b \<and> utc_day a = utc_day b \<and>
         utc_hours a = utc_hours b \<and> utc_minutes a = utc_minutes b \<and>
         utc_seconds a = utc_seconds b"
  shows "\<bar>getTime a - getTime b\<bar> < 1000"
proof -
  from assms(3) have "getTime a - getTime b = int (utc_millis a) - int (utc_millis b)"
    by (simp add: getTime_def)
  moreover from assms(1,2) have "utc_millis a < 1000" "utc_millis b < 1000"
    by (simp_all add: valid_Date_def)
  ultimately show ?thesis by linarith
qed


lemma pad_free: "CHR ''/'' \<notin> set (padStart k (dec n))"
  using padStart_digits [of k n] by (auto simp: list_all_iff is_digit_def)

lemma iso_year_free: "CHR ''/'' \<notin> set (iso_year y)"
  by (simp add: iso_year_def pad_free)

lemma timestamp_free: "CHR ''/'' \<notin> set (timestamp d)"
proof -
  have "CHR ''/'' \<notin> set (toISOString d)"
    by (simp add: toISOString_def iso_year_free pad_free)
  then have "CHR ''/'' \<notin> set (map dashed (toISOString d))"
    by (auto simp: dashed_def split: if_splits)
  then show ?thesis
    unfolding timestamp_def by (meson in_set_takeD)
qed

lemma plain_recording_name: "plain (recording_name d)"
  by (simp add: plain_def recording_name_def timestamp_free)

lemma recording_name_inj: "recording_name a = recording_name b \<Longrightarrow> timestamp a = timestamp b"
  by (simp add: recording_name_def)

lemma output_inside:
  "resolve wd (path_join [dir, recording_name d]) = resolve wd dir @ [recording_name d]"
  by (simp add: resolve_path_join plain_recording_name)

lemma output_paths_distinct:
  assumes "valid_Date a" "0 \<le> utc_year a" "utc_year a \<le> 9999"
    and "valid_Date b" "0 \<le> utc_year b" "utc_year b \<le> 9999"
    and "1000 \<le> \<bar>getTime a - getTime b\<bar>"
  shows "path_join [dir, recording_name a] \<noteq> path_join [dir', recording_name b]"
proof
  assume "path_join [dir, recording_name a] = path_join [dir', recording_name b]"
  then have "resolve [] (path_join [dir, recording_name a]) =
      resolve [] (path_join [dir', recording_name b])" by simp
  then have "recording_name a = recording_name b" by (simp add: output_inside)
  then have "timestamp a = timestamp b" by (rule recording_name_inj)
  from timestamp_inj [OF assms(1-6) this] same_second_close [OF assms(1,4)] assms(7)
  show False by simp
qed


lemma put_file_dirs:
  assumes "put_file f p w = (Inr u, w')"
  shows "(files w' k = Some Dir) = (files w k = Some Dir)"
proof -
  from put_file_Inr [OF assms] obtain c where
    r: "resolve (cwd w) p \<noteq> []" and
    f: "files w' = (files w)(resolve (cwd w) p \<mapsto> File (f c))" and
    n: "node_at w p = Some (File c) \<or> node_at w p = None"
    by blast
  from r n have "files w (resolve (cwd w) p) \<noteq> Some Dir"
    by (auto simp: node_at_def Let_def)
  with f show ?thesis by auto
qed

lemma getOutputDir_missing:
  "\<not> existsSync (chosen_dir prefs w) w \<Longrightarrow>
   getOutputDir prefs w =
     (case mkdirs [] (resolve (cwd w) (chosen_dir prefs w)) w of
        (Inl e, w') \<Rightarrow> (Inl e, w')
      | (Inr u, w') \<Rightarrow> (Inr (chosen_dir prefs w), w'))"
  by (simp add: getOutputDir_def chosen_dir_def Let_def bind_io_def return_io_def
      mkdirSync_recursive_def split: prod.splits sum.splits)

lemma getOutputDir_Inr:
  assumes "getOutputDir prefs w = (Inr d, w1)"
  shows "d = chosen_dir prefs w \<and>
     (\<forall>k. files w k = Some Dir \<longrightarrow> files w1 k = Some Dir) \<and>
     (\<not> existsSync (chosen_dir prefs w) w \<longrightarrow>
        (\<forall>p \<in> set (dirs_down [] (resolve (cwd w) (chosen_dir prefs w))). files w1 p = Some Dir))"
proof (cases "existsSync (chosen_dir prefs w) w")
  case True
  from assms getOutputDir_exists [OF True]
  have "(Inr d, w1) = (Inr (chosen_dir prefs w) :: err + string, w)" by (simp only:)
  then have eq: "d = chosen_dir prefs w" "w1 = w" by simp_all
  show ?thesis unfolding eq using True by simp
next
  case False
  let ?r = "resolve (cwd w) (chosen_dir prefs w)"
  obtain x w2 where m: "mkdirs [] ?r w = (x, w2)" by (cases "mkdirs [] ?r w")
  with assms getOutputDir_missing [OF False] obtain u where
    x: "x = Inr u" and eq: "d = chosen_dir prefs w" "w2 = w1"
    by (cases x) simp_all
  from m x eq have "mkdirs [] ?r w = (Inr u, w1)" by simp
  from mkdirs_Inr [OF this]
  have f: "files w1 = (\<lambda>p. if p \<in> set (dirs_down [] ?r) then Some Dir else files w p)" .
  have "\<forall>k. files w k = Some Dir \<longrightarrow> files w1 k = Some Dir"
    unfolding f by simp
  moreover have "\<forall>p \<in> set (dirs_down [] ?r). files w1 p = Some Dir"
    unfolding f by simp
  ultimately show ?thesis using eq(1) by blast
qed

lemma startRecording_effects:
  assumes "startRecording now xd outcome prefs w = (Inr c, w')"
  shows "(\<exists>fps' res audio.
            spawned w' =
              (''ffmpeg'', ffmpeg_args fps' res (detectDisplay w) audio
                 (path_join [chosen_dir prefs w, recording_name now])) # spawned w) \<and>
         (\<forall>k. files w k = Some Dir \<longrightarrow> files w' k = Some Dir) \<and>
         (\<not> existsSync (chosen_dir prefs w) w \<longrightarrow>
            (\<forall>p \<in> set (dirs_down [] (resolve (cwd w) (chosen_dir prefs w))).
               files w' p = Some Dir))"
proof -
  define A where "A = (\<lambda>dir w1.
     ffmpeg_args (or_default (map_option trim (fps prefs)) ''60'')
       (case xd (detectDisplay w1) of Inl e \<Rightarrow> ''1920x1080''
        | Inr out \<Rightarrow> or_default (Some (trim out)) ''1920x1080'')
       (detectDisplay w1) (or_default (map_option trim (audioDevice prefs)) ''default'')
       (path_join [dir, recording_name now]))"
  from assms obtain dir w1 w2 w3 where
    g: "getOutputDir prefs w = (Inr dir, w1)" and
    l: "writeFileSync (LOG_FILE w1)
          (log_header (A dir w1) (detectDisplay w1) (path_join [dir, recording_name now])) w1
        = (Inr (), w2)" and
    a: "openSync_a (LOG_FILE w1) w2 = (Inr (), w3)" and
    p: "(case spawn outcome ''ffmpeg'' (A dir w1) w3 of
           (c', w4) \<Rightarrow> bind_io (writeFileSync (PID_FILE w4) (child_pid_String c')) (\<lambda>_. return_io c') w4)
        = (Inr c, w')"
    unfolding A_def startRecording_def Let_def bind_io_Inr detectResolution_returns
    by auto
  obtain c' w4 where s: "spawn outcome ''ffmpeg'' (A dir w1) w3 = (c', w4)"
    by (cases "spawn outcome ''ffmpeg'' (A dir w1) w3")
  with p have q: "writeFileSync (PID_FILE w4) (child_pid_String c') w4 = (Inr (), w')"
    by (auto simp: bind_io_Inr return_io_def)
  from getOutputDir_Inr [OF g] have
    d: "dir = chosen_dir prefs w" and
    k1: "\<forall>k. files w k = Some Dir \<longrightarrow> files w1 k = Some Dir" and
    m1: "\<not> existsSync (chosen_dir prefs w) w \<longrightarrow>
        (\<forall>p \<in> set (dirs_down [] (resolve (cwd w) (chosen_dir prefs w))). files w1 p = Some Dir)"
    by blast+
  from getOutputDir_env [OF g] have e1: "same_env w w1" and s1: "spawned w1 = spawned w" by simp_all
  from l have s2: "spawned w2 = spawned w1" and k2: "\<And>k. (files w2 k = Some Dir) = (files w1 k = Some Dir)"
    unfolding writeFileSync_def using put_file_Inr put_file_dirs by blast+
  from a have s3: "spawned w3 = spawned w2" and k3: "\<And>k. (files w3 k = Some Dir) = (files w2 k = Some Dir)"
    unfolding openSync_a_def using put_file_Inr put_file_dirs by blast+
  from s have s4: "spawned w4 = (''ffmpeg'', A dir w1) # spawned w3" and k4: "files w4 = files w3"
    by (auto simp: spawn_def)
  from q have s5: "spawned w' = spawned w4" and k5: "\<And>k. (files w' k = Some Dir) = (files w4 k = Some Dir)"
    unfolding writeFileSync_def using put_file_Inr put_file_dirs by blast+
  have disp: "detectDisplay w1 = detectDisplay w"
    using e1 by (simp add: detectDisplay_def same_env_def)
  have "spawned w' = (''ffmpeg'', A (chosen_dir prefs w) w1) # spawned w"
    using s1 s2 s3 s4 s5 d by simp
  then have "\<exists>fps' res audio. spawned w' =
      (''ffmpeg'', ffmpeg_args fps' res (detectDisplay w) audio
         (path_join [chosen_dir prefs w, recording_name now])) # spawned w"
    unfolding A_def disp by blast
  moreover have "\<And>k. (files w' k = Some Dir) = (files w1 k = Some Dir)"
    using k2 k3 k4 k5 by simp
  ultimately show ?thesis using k1 m1 by blast
qed

lemma toggle_startRecording_effects:
  assumes "toggle_startRecording now outcome prefs w = (Inr c, w')"
  shows "spawned w' = (''ffmpeg'', toggle_args prefs (toggle_outputFile now prefs w)) # spawned w \<and>
         (\<forall>k. (files w' k = Some Dir) = (files w k = Some Dir))"
proof -
  let ?args = "toggle_args prefs (toggle_outputFile now prefs w)"
  from assms obtain w2 w3 where
    l: "openSync_w (toggle_LOG_FILE w) w = (Inr (), w2)" and
    a: "openSync_a (toggle_LOG_FILE w) w2 = (Inr (), w3)" and
    p: "(case spawn outcome ''ffmpeg'' ?args w3 of
           (c', w4) \<Rightarrow> bind_io (writeFileSync (PID_FILE w4) (child_pid_String c')) (\<lambda>_. return_io c') w4)
        = (Inr c, w')"
    by (auto simp: toggle_startRecording_def Let_def bind_io_Inr)
  obtain c' w4 where s: "spawn outcome ''ffmpeg'' ?args w3 = (c', w4)"
    by (cases "spawn outcome ''ffmpeg'' ?args w3")
  with p have q: "writeFileSync (PID_FILE w4) (child_pid_String c') w4 = (Inr (), w')"
    by (auto simp: bind_io_Inr return_io_def)
  from l have s2: "spawned w2 = spawned w" and k2: "\<And>k. (files w2 k = Some Dir) = (files w k = Some Dir)"
    unfolding openSync_w_def using put_file_Inr put_file_dirs by blast+
  from a have s3: "spawned w3 = spawned w2" and k3: "\<And>k. (files w3 k = Some Dir) = (files w2 k = Some Dir)"
    unfolding openSync_a_def using put_file_Inr put_file_dirs by blast+
  from s have s4: "spawned w4 = (''ffmpeg'', ?args) # spawned w3" and k4: "files w4 = files w3"
    by (auto simp: spawn_def)
  from q have s5: "spawned w' = spawned w4" and k5: "\<And>k. (files w' k = Some Dir) = (files w4 k = Some Dir)"
    unfolding writeFileSync_def using put_file_Inr put_file_dirs by blast+
  show ?thesis using s2 s3 s4 s5 k2 k3 k4 k5 by simp
qed

lemma last_args:
  "last (ffmpeg_args f r d a out) = out" "last (toggle_args prefs out) = out"
  by (simp_all add: ffmpeg_args_def toggle_args_def)

lemma far_future_stamps:
  "recording_name far_future = recording_name far_future_later"
  "getTime far_future_later - getTime far_future = 30000"
  by (simp_all add: recording_name_def timestamp_def dashed_def toISOString_def iso_year_def
      padStart_def dec.simps digit_char_def far_future_def far_future_later_def morning_def
      getTime_def days_from_civil_def)

lemma example_toggle_out:
  "fst (toggle_main morning (Spawned 4242) out_prefs desktop_world) = Inr HudStarted"
  "\<not> existsSync ''/tmp/out'' desktop_world"
  "\<not> existsSync ''/tmp/out'' (snd (toggle_main morning (Spawned 4242) out_prefs desktop_world))"
  "spawned (snd (toggle_main morning (Spawned 4242) out_prefs desktop_world)) =
     [(''ffmpeg'', toggle_args out_prefs (toggle_outputFile morning out_prefs desktop_world))]"
  by (simp_all add: toggle_main_def isRecording_def toggle_startRecording_def or_default_def
      Let_def out_prefs_def io_defs path_defs example_defs)

lemma example_recording_name:
  "recording_name morning = ''recording-2024-03-09T07-05-59.mp4''"
  by code_simp

lemma example_toggle_outputFile:
  "toggle_outputFile morning out_prefs desktop_world = ''/tmp/out/recording-2024-03-09T07-05-59.mp4''"
  unfolding toggle_outputFile_def example_recording_name
  by (simp add: or_default_def out_prefs_def no_prefs_def path_join_def path_normalize_def
      normalizeString_def normalize_step_def isAbsolute_def)

lemma example_view_out:
  "fst (startRecording morning pipeline_throws (Spawned 4242) out_prefs idle_world)
     = Inr (Spawned 4242)"
  "\<not> existsSync ''/tmp/out'' idle_world"
  "node_at (snd (startRecording morning pipeline_throws (Spawned 4242) out_prefs idle_world))
     ''/tmp/out'' = Some Dir"
  by (simp_all add: startRecording_def getOutputDir_def detectDisplay_def detectResolution_def
      or_default_def Let_def pipeline_throws_def out_prefs_def trim_def is_space_def
      io_defs path_defs example_defs)

text \<open>
  Claim C8. Output file paths produced by two \<open>startRecording\<close> calls at least one second
  apart are distinct, and every produced path resolves inside the configured output
  directory, which is created recursively if it does not exist. The toggle command departs
  from this. With the output directory configured as \<open>/tmp/out\<close> and missing, its \<open>main\<close>
  answers \<open>Recording started\<close> and has launched \<open>ffmpeg\<close> with an output path inside
  \<open>/tmp/out\<close>, and the directory is still missing afterwards. The status view's
  \<open>startRecording\<close>, with the same preferences, leaves \<open>/tmp/out\<close> a directory.
\<close>

theorem toggle_output_dir_not_created:
  "\<not> existsSync ''/tmp/out'' desktop_world \<and>
   fst (toggle_main morning (Spawned 4242) out_prefs desktop_world) = Inr HudStarted \<and>
   map (\<lambda>(cmd, args). (cmd, last args))
     (spawned (snd (toggle_main morning (Spawned 4242) out_prefs desktop_world))) =
     [(''ffmpeg'', ''/tmp/out/recording-2024-03-09T07-05-59.mp4'')] \<and>
   \<not> existsSync ''/tmp/out'' (snd (toggle_main morning (Spawned 4242) out_prefs desktop_world)) \<and>
   \<not> existsSync ''/tmp/out'' idle_world \<and>
   fst (startRecording morning pipeline_throws (Spawned 4242) out_prefs idle_world)
     = Inr (Spawned 4242) \<and>
   node_at (snd (startRecording morning pipeline_throws (Spawned 4242) out_prefs idle_world))
     ''/tmp/out'' = Some Dir"
  by (simp add: example_toggle_out example_view_out last_args example_toggle_outputFile)


end
